theory Spec2Isabelle
  imports Complex_Main "HOL-Library.Monad_Syntax"
begin

text \<open>
  A model of the orchestrator of the Responses API proxy: the persistence helpers and the
  cancel endpoint acting on the table of stored responses, the streaming path
  (\<open>streamResponse\<close>) as a state machine over the events of the provider, conversation
  assembly (\<open>buildInputItems\<close>), and request validation (\<open>ResponsesRequestSchema\<close>).

  The table is a map from ids to rows, and every statement on it takes effect at once and
  succeeds. Identifiers are drawn from a supply of random suffixes, the clock is a
  parameter. What a stream writes is recorded in the order of the calls to \<open>write\<close>,
  whether or not the client still reads.
\<close>

section \<open>Data model\<close>

text \<open>
  JSON values, for request bodies and for the fields the server passes through without
  looking inside (tool definitions, tool choice, text format, reasoning, annotations).
  An object is the list of its keys and values, each key once.
\<close>

datatype json =
    JNull
  | JBool bool
  | JNum real
  | JStr string
  | JArr "json list"
  | JObj "(string \<times> json) list"

subsection \<open>Output items (\<open>lib/openresponses/response.ts\<close>)\<close>

datatype item_status = ItemInProgress | ItemCompleted | ItemIncomplete

text \<open>\<open>OutputTextPart\<close>: \<open>{type: "output_text", text, annotations}\<close>.\<close>

datatype output_text_part = OutputText (part_text: string) (part_annotations: "json list")

text \<open>
  \<open>MessageItem\<close> (role is always \<open>"assistant"\<close>), \<open>FunctionCallItem\<close>, and the reasoning
  item the orchestrator builds from accumulated thinking
  (\<open>{type: "reasoning", id, summary: [{type: "summary_text", text}], status, encrypted_content: null}\<close>).
\<close>

datatype output_item =
    MessageItem (item_id: string) (item_status: item_status) (content: "output_text_part list")
  | FunctionCallItem (item_id: string) (call_id: string) (item_status: item_status)
      (fn_name: string) (arguments: string)
  | ReasoningItem (item_id: string) (summary_text: string) (item_status: item_status)

record usage =
  input_tokens :: int
  output_tokens :: int
  total_tokens :: int
  cached_tokens :: "int option"

datatype response_status = Queued | InProgress | Completed | Failed | Cancelled | Incomplete

subsection \<open>Input items (\<open>lib/openresponses/schema.ts\<close>)\<close>

datatype role = User | Assistant | System | Developer

datatype input_content_part =
    InputTextPart string
  | InputImagePart "string option" "string option"

datatype message_content = StringContent string | PartsContent "input_content_part list"

text \<open>
  The elements of the \<open>unknown[]\<close> item list of the orchestrator: validated input items of
  a request, and output items of an earlier response read back from its stored row.
\<close>

datatype item =
    InputMessage role message_content
  | FunctionCall "string option" string string string
  | FunctionCallOutput string string
  | ItemReference string
  | Output output_item

text \<open>\<open>(i as Record<string, unknown>).id\<close>: the \<open>id\<close> property of an item, if it has one.\<close>

fun id_of :: "item \<Rightarrow> string option" where
  "id_of (InputMessage r c) = None"
| "id_of (FunctionCall i c n a) = i"
| "id_of (FunctionCallOutput c out) = None"
| "id_of (ItemReference i) = Some i"
| "id_of (Output out) = Some (item_id out)"

datatype request_input = StringInput string | ArrayInput "item list"

text \<open>\<open>ResponsesRequest\<close>, the validated request (\<open>z.infer<typeof ResponsesRequestSchema>\<close>).\<close>

record request =
  model :: string
  input :: request_input
  stream :: bool
  instructions :: "string option"
  previous_response_id :: "string option"
  tools :: "json list"
  tool_choice :: json
  temperature :: "real option"
  top_p :: "real option"
  max_output_tokens :: "real option"
  store :: bool
  background :: bool
  metadata :: "(string \<times> string) list"
  truncation :: string
  parallel_tool_calls :: bool
  text_format :: "json option"
  reasoning :: "json option"

subsection \<open>Stored rows (table \<open>responses\<close> of \<open>lib/db/schema.ts\<close>)\<close>

record error_json =
  error_type :: string
  error_message :: string
  error_code :: "string option"

datatype incomplete_details = IncompleteReason string

record stored_response =
  row_id :: string
  row_status :: response_status
  row_model :: string
  row_instructions :: "string option"
  inputItemsJson :: "item list option"
  outputItemsJson :: "output_item list option"
  toolsJson :: "json list option"
  toolChoiceJson :: "json option"
  usageJson :: "usage option"
  row_metadata :: "(string \<times> string) list option"
  row_store :: "bool option"
  row_background :: "bool option"
  previousResponseId :: "string option"
  row_truncation :: "string option"
  parallelToolCalls :: "bool option"
  row_temperature :: "real option"
  topP :: "real option"
  maxOutputTokens :: "real option"
  errorJson :: "error_json option"
  incompleteDetailsJson :: "incomplete_details option"
  createdAt :: nat
  completedAt :: "nat option"
  cancelledAt :: "nat option"

text \<open>The table, keyed by its primary key \<open>id\<close>.\<close>

type_synonym database = "string \<rightharpoonup> stored_response"

section \<open>Persistence helpers of the orchestrator\<close>

text \<open>
  \<open>persistResponse\<close>: \<open>INSERT ... ON CONFLICT (id) DO UPDATE SET status, output_items_json,
  usage_json, error_json, incomplete_details_json, completed_at\<close>. \<open>now\<close> is
  \<open>Math.floor(Date.now() / 1000)\<close>. The update on conflict has no condition on the
  stored status. Values are stored as they are given: the column types of the table
  (\<open>integer\<close> for \<open>max_output_tokens\<close>, \<open>real\<close> for \<open>temperature\<close> and \<open>top_p\<close>) are
  not modelled, so the statement neither fails on an integer beyond 32 bits nor rounds.
\<close>

definition persistResponse ::
  "nat \<Rightarrow> string \<Rightarrow> request \<Rightarrow> item list \<Rightarrow> response_status \<Rightarrow> output_item list \<Rightarrow>
   usage option \<Rightarrow> nat \<Rightarrow> error_json option \<Rightarrow> incomplete_details option \<Rightarrow>
   database \<Rightarrow> database" where
  "persistResponse now responseId req inputItems status outputItems usg created err incompleteDetails db =
     (case db responseId of
        None \<Rightarrow>
          db(responseId \<mapsto> \<lparr>
            row_id = responseId,
            row_status = status,
            row_model = model req,
            row_instructions = instructions req,
            inputItemsJson = Some inputItems,
            outputItemsJson = Some outputItems,
            toolsJson = Some (tools req),
            toolChoiceJson = Some (tool_choice req),
            usageJson = usg,
            row_metadata = Some (metadata req),
            row_store = Some True,
            row_background = Some (background req),
            previousResponseId = previous_response_id req,
            row_truncation = Some (truncation req),
            parallelToolCalls = Some (parallel_tool_calls req),
            row_temperature = temperature req,
            topP = top_p req,
            maxOutputTokens = max_output_tokens req,
            errorJson = err,
            incompleteDetailsJson = incompleteDetails,
            createdAt = created,
            completedAt = (if status = Completed then Some now else None),
            cancelledAt = None \<rparr>)
      | Some row \<Rightarrow>
          db(responseId \<mapsto> row\<lparr>
            row_status := status,
            outputItemsJson := Some outputItems,
            usageJson := usg,
            errorJson := err,
            incompleteDetailsJson := incompleteDetails,
            completedAt := (if status = Completed then Some now else None) \<rparr>))"

text \<open>
  \<open>persistPartialOutput\<close>: \<open>UPDATE responses SET output_items_json = ? WHERE id = ? AND
  status = 'in_progress'\<close>.
\<close>

definition persistPartialOutput :: "string \<Rightarrow> output_item list \<Rightarrow> database \<Rightarrow> database" where
  "persistPartialOutput responseId outputItems db =
     (case db responseId of
        None \<Rightarrow> db
      | Some row \<Rightarrow>
          if row_status row = InProgress
          then db(responseId \<mapsto> row\<lparr>outputItemsJson := Some outputItems\<rparr>)
          else db)"

section \<open>The cancel endpoint (\<open>POST /v1/responses/{id}/cancel\<close>)\<close>

datatype cancel_result =
    CancelNotFound
  | CancelConflictNotStored
  | CancelConflictStatus response_status
  | CancelOk

text \<open>
  The handler after authentication: 404 when no row has the id, 409 when the row was not
  stored or its status is neither \<open>queued\<close> nor \<open>in_progress\<close>; otherwise the row's
  status becomes \<open>cancelled\<close> and \<open>cancelled_at\<close> is set.
\<close>

definition cancel_POST :: "nat \<Rightarrow> string \<Rightarrow> database \<Rightarrow> cancel_result \<times> database" where
  "cancel_POST now rid db =
     (case db rid of
        None \<Rightarrow> (CancelNotFound, db)
      | Some row \<Rightarrow>
          if row_store row \<noteq> Some True then (CancelConflictNotStored, db)
          else if row_status row \<noteq> Queued \<and> row_status row \<noteq> InProgress
          then (CancelConflictStatus (row_status row), db)
          else (CancelOk, db(rid \<mapsto> row\<lparr>row_status := Cancelled, cancelledAt := Some now\<rparr>)))"

definition terminal :: "response_status \<Rightarrow> bool" where
  "terminal s = (s = Cancelled \<or> s = Completed \<or> s = Failed \<or> s = Incomplete)"

section \<open>The streaming path of the orchestrator (\<open>streamResponse\<close>)\<close>

subsection \<open>Provider events (\<open>lib/providers/types.ts\<close>)\<close>

datatype stop_reason = EndTurn | ToolUse | MaxTokens | Stop | StopCancelled

record provider_usage =
  inputTokens :: int
  outputTokens :: int
  cacheReadTokens :: "int option"

datatype provider_event =
    TextDelta string
  | ToolCallStart string string int
  | ToolCallDelta string string
  | ToolCallDone string string int
  | MessageDone stop_reason provider_usage
  | ThinkingDelta string
  | ThinkingDone string

text \<open>
  What the \<open>for await\<close> loop sees: the provider yields an event, or (between two events,
  where the loop is suspended) the debounce timer of the partial update fires.
\<close>

datatype action = Yield provider_event | TimerFires

text \<open>
  A value thrown by the provider iterator, as far as the \<open>catch\<close> block inspects it:
  \<open>instanceof DOMException\<close>, \<open>instanceof Error\<close>, \<open>name\<close>,
  \<open>instanceof OpenAI.APIUserAbortError\<close>, \<open>message\<close>.
\<close>

record thrown =
  is_DOMException :: bool
  is_Error :: bool
  err_name :: string
  is_APIUserAbortError :: bool
  err_message :: string

datatype stream_end = Finished | Threw thrown

subsection \<open>Response objects and wire events\<close>

record response_object =
  resp_id :: string
  resp_created_at :: nat
  resp_status :: response_status
  resp_model :: string
  resp_output :: "output_item list"
  resp_tool_choice :: json
  resp_tools :: "json list"
  resp_parallel_tool_calls :: bool
  resp_instructions :: "string option"
  resp_previous_response_id :: "string option"
  resp_temperature :: "real option"
  resp_top_p :: "real option"
  resp_max_output_tokens :: "real option"
  resp_truncation :: string
  resp_metadata :: "(string \<times> string) list"
  resp_usage :: "usage option"
  resp_error :: "error_json option"
  resp_incomplete_details :: "incomplete_details option"
  resp_text :: json
  resp_reasoning :: "json option"
  resp_store :: bool
  resp_background :: bool

text \<open>
  The events written to the stream. Every constructor but the last two carries its
  \<open>sequence_number\<close> first; \<open>ErrorEvent\<close> is the payload of \<open>sseErrorPayload\<close>
  (\<open>{type: "error", error: {type, message, code}}\<close>), \<open>DoneSentinel\<close> is \<open>sseDone()\<close>.
\<close>

datatype sse_event =
    ResponseInProgress nat string
  | OutputItemAdded nat int output_item
  | ContentPartAdded nat string int int output_text_part
  | OutputTextDelta nat string int int string
  | OutputTextDone nat string int int string
  | ContentPartDone nat string int int output_text_part
  | OutputItemDone nat int output_item
  | ResponseCompleted nat response_object
  | ResponseFailed nat response_object
  | ErrorEvent string string "string option"
  | DoneSentinel

subsection \<open>State of one stream\<close>

record function_call_acc =
  fc_id :: string
  callId :: string
  fc_name :: string
  fc_arguments :: string
  outputIndex :: int
  fc_done :: bool

text \<open>
  The local variables of \<open>start(controller)\<close>, the bytes written so far (\<open>wire\<close>), the
  number of identifiers drawn from \<open>newId\<close>, and the table.
\<close>

record stream_state =
  sequence :: nat
  accumulatedText :: string
  accumulatedThinking :: string
  functionCalls :: "function_call_acc list"
  nextOutputIndex :: int
  responseUsage :: "usage option"
  textItemOpened :: bool
  messageOutputIndex :: int
  partialUpdateTimer :: bool
  idsDrawn :: nat
  wire :: "sse_event list"
  db :: database

text \<open>
  The environment of a request: \<open>randomHex k\<close> is the hexadecimal suffix of the \<open>k\<close>-th
  identifier drawn (\<open>randomUUID().replace(/-/g, "")\<close>), \<open>clock\<close> is
  \<open>Math.floor(Date.now() / 1000)\<close>.
\<close>

record env =
  randomHex :: "nat \<Rightarrow> string"
  clock :: nat

text \<open>The variables \<open>streamResponse\<close> closes over.\<close>

record stream_ctx =
  ctx_env :: env
  responseId :: string
  messageId :: string
  ctx_request :: request
  ctx_inputItems :: "item list"
  ctx_createdAt :: nat

definition newId :: "env \<Rightarrow> string \<Rightarrow> stream_state \<Rightarrow> string \<times> stream_state" where
  "newId e prefix st = (prefix @ randomHex e (idsDrawn st), st\<lparr>idsDrawn := Suc (idsDrawn st)\<rparr>)"

text \<open>\<open>createTextMessageItem\<close>: a message item with a fresh id and status \<open>completed\<close>.\<close>

definition createTextMessageItem :: "env \<Rightarrow> string \<Rightarrow> stream_state \<Rightarrow> output_item \<times> stream_state" where
  "createTextMessageItem e txt st =
     (case newId e ''msg_'' st of
        (i, st') \<Rightarrow> (MessageItem i ItemCompleted [OutputText txt []], st'))"

text \<open>\<open>write(sseEvent(..., {sequence_number: nextSeq(), ...}))\<close> and \<open>write\<close> alone.\<close>

definition emit :: "(nat \<Rightarrow> sse_event) \<Rightarrow> stream_state \<Rightarrow> stream_state" where
  "emit mk st =
     st\<lparr>sequence := Suc (sequence st), wire := wire st @ [mk (Suc (sequence st))]\<rparr>"

definition write_sse :: "sse_event \<Rightarrow> stream_state \<Rightarrow> stream_state" where
  "write_sse ev st = st\<lparr>wire := wire st @ [ev]\<rparr>"

definition function_call_item :: "function_call_acc \<Rightarrow> output_item" where
  "function_call_item fc =
     FunctionCallItem (fc_id fc) (callId fc)
       (if fc_done fc then ItemCompleted else ItemIncomplete) (fc_name fc) (fc_arguments fc)"

definition collectOutputItems :: "stream_ctx \<Rightarrow> stream_state \<Rightarrow> output_item list \<times> stream_state" where
  "collectOutputItems ctx st =
     (case (if textItemOpened st
            then (case createTextMessageItem (ctx_env ctx) (accumulatedText st) st of
                    (msgItem, st') \<Rightarrow>
                      ([MessageItem (messageId ctx) (item_status msgItem) (content msgItem)], st'))
            else ([], st)) of
        (items, st1) \<Rightarrow>
          (case items @ map function_call_item (functionCalls st1) of
             items2 \<Rightarrow>
               if accumulatedThinking st1 \<noteq> []
               then (case newId (ctx_env ctx) ''rs_'' st1 of
                       (rid, st2) \<Rightarrow>
                         (ReasoningItem rid (accumulatedThinking st1) ItemCompleted # items2, st2))
               else (items2, st1)))"

definition schedulePartialUpdate :: "stream_ctx \<Rightarrow> stream_state \<Rightarrow> stream_state" where
  "schedulePartialUpdate ctx st =
     (if \<not> store (ctx_request ctx) then st else st\<lparr>partialUpdateTimer := True\<rparr>)"

definition cancelPartialUpdate :: "stream_state \<Rightarrow> stream_state" where
  "cancelPartialUpdate st = (if partialUpdateTimer st then st\<lparr>partialUpdateTimer := False\<rparr> else st)"

text \<open>The callback of the debounce timer.\<close>

definition timer_callback :: "stream_ctx \<Rightarrow> stream_state \<Rightarrow> stream_state" where
  "timer_callback ctx st =
     (case collectOutputItems ctx (st\<lparr>partialUpdateTimer := False\<rparr>) of
        (items, st') \<Rightarrow> st'\<lparr>db := persistPartialOutput (responseId ctx) items (db st')\<rparr>)"

definition ensureTextItemOpened :: "stream_ctx \<Rightarrow> stream_state \<Rightarrow> stream_state" where
  "ensureTextItemOpened ctx st =
     (if textItemOpened st then st
      else
        (let st1 = st\<lparr>textItemOpened := True,
                       messageOutputIndex := nextOutputIndex st,
                       nextOutputIndex := nextOutputIndex st + 1\<rparr>;
             st2 = emit (\<lambda>n. OutputItemAdded n (messageOutputIndex st1)
                                 (MessageItem (messageId ctx) ItemInProgress [])) st1
         in emit (\<lambda>n. ContentPartAdded n (messageId ctx) (messageOutputIndex st2) 0
                         (OutputText [] [])) st2))"

text \<open>\<open>createResponseObject\<close>, with the arguments \<open>buildResponseObject\<close> passes.\<close>

definition createResponseObject ::
  "string \<Rightarrow> nat \<Rightarrow> request \<Rightarrow> output_item list \<Rightarrow> usage option \<Rightarrow> response_status \<Rightarrow> response_object" where
  "createResponseObject fresh now req out usg status =
     \<lparr> resp_id = fresh,
       resp_created_at = now,
       resp_status = status,
       resp_model = model req,
       resp_output = out,
       resp_tool_choice = tool_choice req,
       resp_tools = tools req,
       resp_parallel_tool_calls = parallel_tool_calls req,
       resp_instructions = instructions req,
       resp_previous_response_id = previous_response_id req,
       resp_temperature = temperature req,
       resp_top_p = top_p req,
       resp_max_output_tokens = max_output_tokens req,
       resp_truncation = truncation req,
       resp_metadata = metadata req,
       resp_usage = usg,
       resp_error = None,
       resp_incomplete_details = None,
       resp_text = (case text_format req of
                      None \<Rightarrow> JObj [(''format'', JObj [(''type'', JStr ''text'')])]
                    | Some t \<Rightarrow> t),
       resp_reasoning = reasoning req,
       resp_store = store req,
       resp_background = background req \<rparr>"

definition buildResponseObject ::
  "stream_ctx \<Rightarrow> response_status \<Rightarrow> stream_state \<Rightarrow> response_object \<times> stream_state" where
  "buildResponseObject ctx status st =
     (case collectOutputItems ctx st of
        (items, st1) \<Rightarrow>
          (case newId (ctx_env ctx) ''resp_'' st1 of
             (fresh, st2) \<Rightarrow>
               (createResponseObject fresh (clock (ctx_env ctx)) (ctx_request ctx) items
                  (responseUsage st2) status, st2)))"

text \<open>\<open>functionCalls.find((f) => f.callId === event.callId)\<close>, then mutation of the entry found.\<close>

fun update_first :: "('a \<Rightarrow> bool) \<Rightarrow> ('a \<Rightarrow> 'a) \<Rightarrow> 'a list \<Rightarrow> 'a list" where
  "update_first P f [] = []"
| "update_first P f (x # xs) = (if P x then f x # xs else x # update_first P f xs)"

text \<open>
  The usage object built at \<open>message_done\<close>. Token counts are integers and the total is
  their exact sum, as the sum of the code is for counts below \<open>2\<^sup>5\<^sup>3\<close>.
\<close>

definition usage_of :: "provider_usage \<Rightarrow> usage" where
  "usage_of u =
     \<lparr> input_tokens = inputTokens u,
       output_tokens = outputTokens u,
       total_tokens = inputTokens u + outputTokens u,
       cached_tokens = cacheReadTokens u \<rparr>"

text \<open>One iteration of the loop body: the \<open>switch (event.type)\<close>.\<close>

fun on_event :: "stream_ctx \<Rightarrow> provider_event \<Rightarrow> stream_state \<Rightarrow> stream_state" where
  "on_event ctx (TextDelta delta) st =
     (let st1 = ensureTextItemOpened ctx st;
          st2 = st1\<lparr>accumulatedText := accumulatedText st1 @ delta\<rparr>;
          st3 = emit (\<lambda>n. OutputTextDelta n (messageId ctx) (messageOutputIndex st2) 0 delta) st2
      in schedulePartialUpdate ctx st3)"
| "on_event ctx (ToolCallStart cid nm oi) st =
     (case newId (ctx_env ctx) ''fc_'' st of
        (fcId, st1) \<Rightarrow>
          (let fcOutputIndex = nextOutputIndex st1;
               st2 = st1\<lparr>nextOutputIndex := nextOutputIndex st1 + 1,
                          functionCalls := functionCalls st1 @
                            [\<lparr> fc_id = fcId, callId = cid, fc_name = nm, fc_arguments = [],
                               outputIndex = fcOutputIndex, fc_done = False \<rparr>]\<rparr>
           in emit (\<lambda>n. OutputItemAdded n fcOutputIndex
                           (FunctionCallItem fcId cid ItemInProgress nm [])) st2))"
| "on_event ctx (ToolCallDelta cid argumentsDelta) st =
     st\<lparr>functionCalls :=
          update_first (\<lambda>f. callId f = cid)
            (\<lambda>f. f\<lparr>fc_arguments := fc_arguments f @ argumentsDelta\<rparr>) (functionCalls st)\<rparr>"
| "on_event ctx (ToolCallDone cid args oi) st =
     (case find (\<lambda>f. callId f = cid) (functionCalls st) of
        None \<Rightarrow> st
      | Some fc \<Rightarrow>
          (let st1 = st\<lparr>functionCalls :=
                          update_first (\<lambda>f. callId f = cid)
                            (\<lambda>f. f\<lparr>fc_arguments := args, fc_done := True\<rparr>) (functionCalls st)\<rparr>
           in emit (\<lambda>n. OutputItemDone n (outputIndex fc)
                           (FunctionCallItem (fc_id fc) (callId fc) ItemCompleted (fc_name fc) args)) st1))"
| "on_event ctx (ThinkingDelta delta) st =
     st\<lparr>accumulatedThinking := accumulatedThinking st @ delta\<rparr>"
| "on_event ctx (ThinkingDone txt) st = st\<lparr>accumulatedThinking := txt\<rparr>"
| "on_event ctx (MessageDone reason u) st =
     (let st1 = st\<lparr>responseUsage := Some (usage_of u)\<rparr>;
          st2 = (if textItemOpened st1
                 then
                   (let a = emit (\<lambda>n. OutputTextDone n (messageId ctx) (messageOutputIndex st1) 0
                                         (accumulatedText st1)) st1;
                        b = emit (\<lambda>n. ContentPartDone n (messageId ctx) (messageOutputIndex a) 0
                                         (OutputText (accumulatedText a) [])) a
                    in emit (\<lambda>n. OutputItemDone n (messageOutputIndex b)
                                    (MessageItem (messageId ctx) ItemCompleted
                                       [OutputText (accumulatedText b) []])) b)
                 else st1)
      in case buildResponseObject ctx Completed st2 of
           (completedResponse, st3) \<Rightarrow>
             emit (\<lambda>n. ResponseCompleted n
                          (completedResponse\<lparr>resp_id := responseId ctx,
                                             resp_created_at := ctx_createdAt ctx\<rparr>)) st3)"

fun on_action :: "stream_ctx \<Rightarrow> stream_state \<Rightarrow> action \<Rightarrow> stream_state" where
  "on_action ctx st (Yield ev) = on_event ctx ev st"
| "on_action ctx st TimerFires = (if partialUpdateTimer st then timer_callback ctx st else st)"

text \<open>The loop over what the provider yields, with the timer firing in between.\<close>

definition run_stream :: "stream_ctx \<Rightarrow> action list \<Rightarrow> stream_state \<Rightarrow> stream_state" where
  "run_stream ctx acts st = foldl (on_action ctx) st acts"

text \<open>After the loop: cancel the timer, \<open>[DONE]\<close>, final persist when \<open>store\<close>.\<close>

definition stream_finish :: "stream_ctx \<Rightarrow> stream_state \<Rightarrow> stream_state" where
  "stream_finish ctx st =
     (let st1 = write_sse DoneSentinel (cancelPartialUpdate st)
      in if store (ctx_request ctx)
         then (case buildResponseObject ctx Completed st1 of
                 (finalResponse, st2) \<Rightarrow>
                   st2\<lparr>db := persistResponse (clock (ctx_env ctx)) (responseId ctx) (ctx_request ctx)
                                (ctx_inputItems ctx) Completed (resp_output finalResponse)
                                (responseUsage st2) (ctx_createdAt ctx) None None (db st2)\<rparr>)
         else st1)"

definition isAbort :: "thrown \<Rightarrow> bool" where
  "isAbort err =
     (is_DOMException err \<and> err_name err = ''AbortError''
      \<or> (is_Error err \<and> err_name err = ''AbortError'')
      \<or> is_APIUserAbortError err)"

text \<open>The \<open>catch (err)\<close> block.\<close>

definition stream_catch :: "stream_ctx \<Rightarrow> thrown \<Rightarrow> stream_state \<Rightarrow> stream_state" where
  "stream_catch ctx err st =
     (let st1 = cancelPartialUpdate st
      in if isAbort err
         then
           (let st2 = (if store (ctx_request ctx)
                       then (case collectOutputItems ctx st1 of
                               (items, s) \<Rightarrow>
                                 s\<lparr>db := persistResponse (clock (ctx_env ctx)) (responseId ctx)
                                            (ctx_request ctx) (ctx_inputItems ctx) Incomplete items
                                            (responseUsage s) (ctx_createdAt ctx) None
                                            (Some (IncompleteReason ''interrupted'')) (db s)\<rparr>)
                       else st1)
            in write_sse DoneSentinel st2)
         else
           (let errorMessage = (if is_Error err then err_message err else ''Internal server error'');
                st2 = write_sse (ErrorEvent ''server_error'' errorMessage None) st1
            in case buildResponseObject ctx Failed st2 of
                 (failedResponse, st3) \<Rightarrow>
                   (let st4 = emit (\<lambda>n. ResponseFailed n
                                      (failedResponse\<lparr>resp_id := responseId ctx,
                                                      resp_created_at := ctx_createdAt ctx,
                                                      resp_error := Some \<lparr> error_type = ''server_error'',
                                                        error_message = errorMessage,
                                                        error_code = None \<rparr>\<rparr>)) st3;
                        st5 = write_sse DoneSentinel st4
                    in if store (ctx_request ctx)
                       then st5\<lparr>db := persistResponse (clock (ctx_env ctx)) (responseId ctx)
                                         (ctx_request ctx) (ctx_inputItems ctx) Failed [] None
                                         (ctx_createdAt ctx)
                                         (Some \<lparr> error_type = ''server_error'',
                                                 error_message = errorMessage,
                                                 error_code = None \<rparr>) None (db st5)\<rparr>
                       else st5)))"

text \<open>
  \<open>streamResponse\<close> up to the first event: the two identifiers, the initial \<open>in_progress\<close>
  row when \<open>store\<close>, the fresh local variables, \<open>response.in_progress\<close>.
\<close>

definition mk_ctx :: "env \<Rightarrow> request \<Rightarrow> item list \<Rightarrow> nat \<Rightarrow> stream_ctx" where
  "mk_ctx e req inputItems created =
     \<lparr> ctx_env = e,
       responseId = ''resp_'' @ randomHex e 0,
       messageId = ''msg_'' @ randomHex e 1,
       ctx_request = req,
       ctx_inputItems = inputItems,
       ctx_createdAt = created \<rparr>"

definition stream_start :: "stream_ctx \<Rightarrow> database \<Rightarrow> stream_state" where
  "stream_start ctx d =
     emit (\<lambda>n. ResponseInProgress n (responseId ctx))
       \<lparr> sequence = 0,
         accumulatedText = [],
         accumulatedThinking = [],
         functionCalls = [],
         nextOutputIndex = 0,
         responseUsage = None,
         textItemOpened = False,
         messageOutputIndex = - 1,
         partialUpdateTimer = False,
         idsDrawn = 2,
         wire = [],
         db = (if store (ctx_request ctx)
               then persistResponse (clock (ctx_env ctx)) (responseId ctx) (ctx_request ctx)
                      (ctx_inputItems ctx) InProgress [] None (ctx_createdAt ctx) None None d
               else d) \<rparr>"

definition stream_ending :: "stream_ctx \<Rightarrow> stream_end \<Rightarrow> stream_state \<Rightarrow> stream_state" where
  "stream_ending ctx e st = (case e of Finished \<Rightarrow> stream_finish ctx st | Threw err \<Rightarrow> stream_catch ctx err st)"

definition streamResponse ::
  "env \<Rightarrow> request \<Rightarrow> item list \<Rightarrow> nat \<Rightarrow> action list \<Rightarrow> stream_end \<Rightarrow> database \<Rightarrow> stream_state" where
  "streamResponse e req inputItems created acts ending d =
     (let ctx = mk_ctx e req inputItems created
      in stream_ending ctx ending (run_stream ctx acts (stream_start ctx d)))"

section \<open>Conversation assembly (\<open>buildInputItems\<close>)\<close>

record api_error =
  http_status :: nat
  api_type :: string
  api_message :: string
  api_param :: "string option"
  api_code :: "string option"

text \<open>JavaScript truthiness of a \<open>string | null | undefined\<close>: the empty string is falsy.\<close>

fun truthy :: "string option \<Rightarrow> bool" where
  "truthy None = False"
| "truthy (Some s) = (s \<noteq> [])"

text \<open>
  The loop over an array input. For an \<open>item_reference\<close> the referenced id is looked up
  among the items collected so far; whatever the lookup gives, nothing is pushed.
\<close>

fun push_array_input :: "item list \<Rightarrow> item list \<Rightarrow> item list" where
  "push_array_input inputItems [] = inputItems"
| "push_array_input inputItems (ItemReference refId # rest) =
     (if refId \<noteq> []
      then (case find (\<lambda>i. id_of i = Some refId) inputItems of
              None \<Rightarrow> push_array_input inputItems rest
            | Some found \<Rightarrow> push_array_input inputItems rest)
      else push_array_input inputItems rest)"
| "push_array_input inputItems (rawItem # rest) = push_array_input (inputItems @ [rawItem]) rest"

definition push_current_input :: "request_input \<Rightarrow> item list \<Rightarrow> item list" where
  "push_current_input currentInput inputItems =
     (case currentInput of
        StringInput s \<Rightarrow>
          if s \<noteq> [] then inputItems @ [InputMessage User (StringContent s)] else inputItems
      | ArrayInput xs \<Rightarrow> push_array_input inputItems xs)"

text \<open>
  \<open>buildInputItems\<close>; \<open>Inl\<close> is the \<open>Response\<close> thrown, which the route returns as it is.
\<close>

definition buildInputItems :: "database \<Rightarrow> request \<Rightarrow> api_error + item list" where
  "buildInputItems d req =
     (if truthy (previous_response_id req)
      then
        (case d (the (previous_response_id req)) of
           None \<Rightarrow>
             Inl \<lparr> http_status = 404, api_type = ''not_found'',
                   api_message = ''Response '' @ [CHR 39] @ the (previous_response_id req)
                                 @ [CHR 39] @ '' not found.'',
                   api_param = Some ''previous_response_id'', api_code = None \<rparr>
         | Some prev \<Rightarrow>
             if row_store prev \<noteq> Some True
             then Inl \<lparr> http_status = 400, api_type = ''invalid_request_error'',
                        api_message = ''Cannot reference a response that was not stored.'',
                        api_param = Some ''previous_response_id'', api_code = None \<rparr>
             else
               (let prevInput = (case inputItemsJson prev of None \<Rightarrow> [] | Some xs \<Rightarrow> xs);
                    prevOutput = (case outputItemsJson prev of None \<Rightarrow> [] | Some ys \<Rightarrow> ys)
                in Inr (push_current_input (input req) (prevInput @ map Output prevOutput))))
      else Inr (push_current_input (input req) []))"

text \<open>What the spec calls deleting every \<open>item_reference\<close> entry from the input.\<close>

fun is_item_reference :: "item \<Rightarrow> bool" where
  "is_item_reference (ItemReference r) = True"
| "is_item_reference _ = False"

definition without_item_references :: "item list \<Rightarrow> item list" where
  "without_item_references xs = filter (\<lambda>i. \<not> is_item_reference i) xs"

section \<open>\<open>runResponse\<close>: resolution of the model, assembly, dispatch\<close>

text \<open>\<open>MODEL_MAP\<close> of the resolver: public model id and underlying model.\<close>

definition MODEL_MAP :: "(string \<times> string) list" where
  "MODEL_MAP =
     [(''gpt-oss-20b-responses'', ''gpt-oss-20b''),
      (''claude-opus-4-6-responses'', ''claude-opus-4-6''),
      (''claude-sonnet-4-6-responses'', ''claude-sonnet-4-6'')]"

fun join :: "string \<Rightarrow> string list \<Rightarrow> string" where
  "join sep [] = []"
| "join sep [x] = x"
| "join sep (x # y # ys) = x @ sep @ join sep (y # ys)"

text \<open>
  \<open>MODEL_MAP\<close> is a plain object, so \<open>MODEL_MAP[modelId]\<close> also finds the members it
  inherits from \<open>Object.prototype\<close>. Such an entry is truthy and has no \<open>adapterKey\<close>.
\<close>

definition object_prototype_members :: "string list" where
  "object_prototype_members =
     [''constructor'', ''__defineGetter__'', ''__defineSetter__'', ''hasOwnProperty'',
      ''__lookupGetter__'', ''__lookupSetter__'', ''isPrototypeOf'', ''propertyIsEnumerable'',
      ''toString'', ''valueOf'', ''__proto__'', ''toLocaleString'']"

text \<open>
  \<open>resolveAdapter\<close>; \<open>Inl\<close> is the response the route gives for what is thrown. For an
  id that is not registered the resolver throws the 400 response. For an id that names a
  member of \<open>Object.prototype\<close> the test \<open>!entry\<close> passes, \<open>getAdapter(undefined)\<close>
  throws an \<open>Error\<close>, and the route answers with \<open>serverError()\<close>.
\<close>

definition resolveAdapter :: "string \<Rightarrow> api_error + string" where
  "resolveAdapter modelId =
     (case map_of MODEL_MAP modelId of
        Some underlyingModel \<Rightarrow> Inr underlyingModel
      | None \<Rightarrow>
          if modelId \<in> set object_prototype_members
          then Inl \<lparr> http_status = 500, api_type = ''server_error'',
                     api_message = ''Internal server error.'',
                     api_param = None, api_code = None \<rparr>
          else Inl \<lparr> http_status = 400, api_type = ''invalid_request_error'',
                     api_message = ''Model '' @ [CHR 39] @ modelId @ [CHR 39]
                       @ '' is not a supported model. Supported models: ''
                       @ join '', '' (map fst MODEL_MAP),
                     api_param = Some ''model'', api_code = None \<rparr>)"

datatype handler = BackgroundResponse | StreamResponse | NonStreamResponse

text \<open>Steps 6 and 7 of \<open>runResponse\<close>: which handler gets the request.\<close>

definition runResponse_dispatch :: "request \<Rightarrow> handler" where
  "runResponse_dispatch req =
     (if background req \<and> store req then BackgroundResponse
      else if stream req then StreamResponse
      else NonStreamResponse)"

text \<open>
  \<open>runResponse\<close> up to the call of the handler: the response the route gives for what
  the resolver or assembly throws, or the handler chosen and the item list it is given.
\<close>

definition runResponse :: "database \<Rightarrow> request \<Rightarrow> api_error + handler \<times> item list" where
  "runResponse d req =
     (case resolveAdapter (model req) of
        Inl e \<Rightarrow> Inl e
      | Inr underlyingModel \<Rightarrow>
          (case buildInputItems d req of
             Inl e \<Rightarrow> Inl e
           | Inr inputItems \<Rightarrow> Inr (runResponse_dispatch req, inputItems)))"

section \<open>Request validation (\<open>ResponsesRequestSchema\<close> and the route that applies it)\<close>

subsection \<open>The schema combinators used by \<open>schema.ts\<close>\<close>

text \<open>
  A schema is a function from a JSON value to the parsed value, \<open>None\<close> when the value
  is rejected. The value of an object's key is \<open>map_of kv k\<close>: \<open>None\<close> when the key is
  absent (\<open>undefined\<close>).
\<close>

fun z_string :: "json \<Rightarrow> string option" where
  "z_string (JStr s) = Some s"
| "z_string j = None"

fun z_boolean :: "json \<Rightarrow> bool option" where
  "z_boolean (JBool b) = Some b"
| "z_boolean j = None"

fun z_number :: "json \<Rightarrow> real option" where
  "z_number (JNum x) = Some x"
| "z_number j = None"

fun z_object :: "json \<Rightarrow> (string \<times> json) list option" where
  "z_object (JObj kv) = Some kv"
| "z_object j = None"

text \<open>\<open>z.number().min(lo).max(hi)\<close>, \<open>z.number().int()\<close>, \<open>z.number().int().positive()\<close>.\<close>

definition z_min_max :: "real \<Rightarrow> real \<Rightarrow> json \<Rightarrow> real option" where
  "z_min_max lo hi j =
     (case z_number j of None \<Rightarrow> None | Some x \<Rightarrow> if lo \<le> x \<and> x \<le> hi then Some x else None)"

definition z_int :: "json \<Rightarrow> real option" where
  "z_int j =
     (case z_number j of None \<Rightarrow> None | Some x \<Rightarrow> if x = of_int \<lfloor>x\<rfloor> then Some x else None)"

definition z_int_positive :: "json \<Rightarrow> real option" where
  "z_int_positive j =
     (case z_int j of None \<Rightarrow> None | Some x \<Rightarrow> if 0 < x then Some x else None)"

definition z_enum :: "string list \<Rightarrow> json \<Rightarrow> string option" where
  "z_enum vs j =
     (case z_string j of None \<Rightarrow> None | Some s \<Rightarrow> if s \<in> set vs then Some s else None)"

definition z_array :: "(json \<Rightarrow> 'a option) \<Rightarrow> json \<Rightarrow> 'a list option" where
  "z_array p j = (case j of JArr xs \<Rightarrow> those (map p xs) | _ \<Rightarrow> None)"

definition z_record :: "(json \<Rightarrow> 'a option) \<Rightarrow> json \<Rightarrow> (string \<times> 'a) list option" where
  "z_record p j =
     (case j of
        JObj kv \<Rightarrow> map_option (zip (map fst kv)) (those (map (\<lambda>(k, v). p v) kv))
      | _ \<Rightarrow> None)"

text \<open>\<open>z.discriminatedUnion(key, [...])\<close>: the option is chosen by the string under \<open>key\<close>.\<close>

definition z_discriminated :: "string \<Rightarrow> (string \<times> (json \<Rightarrow> 'a option)) list \<Rightarrow> json \<Rightarrow> 'a option" where
  "z_discriminated key opts j =
     (case j of
        JObj kv \<Rightarrow>
          (case map_of kv key of
             Some (JStr t) \<Rightarrow> (case map_of opts t of None \<Rightarrow> None | Some p \<Rightarrow> p j)
           | _ \<Rightarrow> None)
      | _ \<Rightarrow> None)"

text \<open>\<open>z.union([...])\<close>: the first option that accepts.\<close>

fun z_union :: "(json \<Rightarrow> 'a option) list \<Rightarrow> json \<Rightarrow> 'a option" where
  "z_union [] j = None"
| "z_union (p # ps) j = (case p j of None \<Rightarrow> z_union ps j | Some v \<Rightarrow> Some v)"

text \<open>
  Modifiers of an object's key: required; \<open>.optional()\<close>; \<open>.nullable().optional()\<close>;
  \<open>.optional().default(d)\<close>. For the optional ones the outer \<open>None\<close> is rejection and the
  inner \<open>None\<close> an absent (or \<open>null\<close>) value.
\<close>

definition required :: "(json \<Rightarrow> 'a option) \<Rightarrow> json option \<Rightarrow> 'a option" where
  "required p v = (case v of None \<Rightarrow> None | Some j \<Rightarrow> p j)"

definition optional :: "(json \<Rightarrow> 'a option) \<Rightarrow> json option \<Rightarrow> 'a option option" where
  "optional p v = (case v of None \<Rightarrow> Some None | Some j \<Rightarrow> map_option Some (p j))"

definition nullable_optional :: "(json \<Rightarrow> 'a option) \<Rightarrow> json option \<Rightarrow> 'a option option" where
  "nullable_optional p v =
     (case v of
        None \<Rightarrow> Some None
      | Some JNull \<Rightarrow> Some None
      | Some j \<Rightarrow> map_option Some (p j))"

definition optional_default :: "'a \<Rightarrow> (json \<Rightarrow> 'a option) \<Rightarrow> json option \<Rightarrow> 'a option" where
  "optional_default dflt p v = (case v of None \<Rightarrow> Some dflt | Some j \<Rightarrow> p j)"

text \<open>
  Schemas whose parsed value stays JSON (tools, tool choice, text format, reasoning).
  \<open>checked p\<close> accepts what \<open>p\<close> accepts and returns the value as it is; \<open>v_object\<close> is
  \<open>z.object({...})\<close>: each listed key is validated, a required key must be present, keys
  that are not listed are dropped.
\<close>

definition checked :: "(json \<Rightarrow> 'a option) \<Rightarrow> json \<Rightarrow> json option" where
  "checked p j = (case p j of None \<Rightarrow> None | Some v \<Rightarrow> Some j)"

datatype presence = Required | Optional

fun check_fields ::
  "(string \<times> presence \<times> (json \<Rightarrow> json option)) list \<Rightarrow> (string \<times> json) list \<Rightarrow>
   (string \<times> json) list option" where
  "check_fields [] kv = Some []"
| "check_fields ((k, pr, p) # fs) kv =
     (case map_of kv k of
        None \<Rightarrow> (if pr = Required then None else check_fields fs kv)
      | Some v \<Rightarrow>
          (case p v of
             None \<Rightarrow> None
           | Some v' \<Rightarrow> map_option (\<lambda>rest. (k, v') # rest) (check_fields fs kv)))"

definition v_object :: "(string \<times> presence \<times> (json \<Rightarrow> json option)) list \<Rightarrow> json \<Rightarrow> json option" where
  "v_object fs j = (case j of JObj kv \<Rightarrow> map_option JObj (check_fields fs kv) | _ \<Rightarrow> None)"

definition v_string :: "json \<Rightarrow> json option" where
  "v_string = checked z_string"

definition v_boolean :: "json \<Rightarrow> json option" where
  "v_boolean = checked z_boolean"

definition v_number :: "json \<Rightarrow> json option" where
  "v_number = checked z_number"

definition v_int :: "json \<Rightarrow> json option" where
  "v_int = checked z_int"

definition v_enum :: "string list \<Rightarrow> json \<Rightarrow> json option" where
  "v_enum vs = checked (z_enum vs)"

definition v_literal :: "string \<Rightarrow> json \<Rightarrow> json option" where
  "v_literal s = checked (z_enum [s])"

definition v_strings :: "json \<Rightarrow> json option" where
  "v_strings = checked (z_array z_string)"

definition v_unknown :: "json \<Rightarrow> json option" where
  "v_unknown j = Some j"

subsection \<open>Input items\<close>

definition InputContentPartSchema :: "json \<Rightarrow> input_content_part option" where
  "InputContentPartSchema =
     z_discriminated ''type''
       [(''input_text'', \<lambda>j. do {
           kv \<leftarrow> z_object j;
           t \<leftarrow> required z_string (map_of kv ''text'');
           Some (InputTextPart t) }),
        (''input_image'', \<lambda>j. do {
           kv \<leftarrow> z_object j;
           url \<leftarrow> optional z_string (map_of kv ''image_url'');
           detail \<leftarrow> optional (z_enum [''auto'', ''low'', ''high'']) (map_of kv ''detail'');
           Some (InputImagePart url detail) })]"

fun z_role :: "json \<Rightarrow> role option" where
  "z_role j =
     (if j = JStr ''user'' then Some User
      else if j = JStr ''assistant'' then Some Assistant
      else if j = JStr ''system'' then Some System
      else if j = JStr ''developer'' then Some Developer
      else None)"

definition InputMessageItemSchema :: "json \<Rightarrow> item option" where
  "InputMessageItemSchema j = do {
     kv \<leftarrow> z_object j;
     t \<leftarrow> optional_default ''message'' (z_enum [''message'']) (map_of kv ''type'');
     r \<leftarrow> required z_role (map_of kv ''role'');
     c \<leftarrow> required (z_union [\<lambda>v. map_option StringContent (z_string v),
                              \<lambda>v. map_option PartsContent (z_array InputContentPartSchema v)])
            (map_of kv ''content'');
     Some (InputMessage r c) }"

definition FunctionCallItemSchema :: "json \<Rightarrow> item option" where
  "FunctionCallItemSchema j = do {
     kv \<leftarrow> z_object j;
     t \<leftarrow> required (z_enum [''function_call'']) (map_of kv ''type'');
     i \<leftarrow> optional z_string (map_of kv ''id'');
     c \<leftarrow> required z_string (map_of kv ''call_id'');
     n \<leftarrow> required z_string (map_of kv ''name'');
     a \<leftarrow> required z_string (map_of kv ''arguments'');
     Some (FunctionCall i c n a) }"

definition FunctionCallOutputItemSchema :: "json \<Rightarrow> item option" where
  "FunctionCallOutputItemSchema j = do {
     kv \<leftarrow> z_object j;
     t \<leftarrow> required (z_enum [''function_call_output'']) (map_of kv ''type'');
     c \<leftarrow> required z_string (map_of kv ''call_id'');
     out \<leftarrow> required z_string (map_of kv ''output'');
     Some (FunctionCallOutput c out) }"

definition ItemReferenceSchema :: "json \<Rightarrow> item option" where
  "ItemReferenceSchema j = do {
     kv \<leftarrow> z_object j;
     t \<leftarrow> required (z_enum [''item_reference'']) (map_of kv ''type'');
     i \<leftarrow> required z_string (map_of kv ''id'');
     Some (ItemReference i) }"

text \<open>
  \<open>InputItemSchema\<close>: a union discriminated by \<open>type\<close>, where the message option has an
  optional \<open>type\<close> with default \<open>"message"\<close>, so an item without \<open>type\<close> is a message.
\<close>

definition InputItemSchema :: "json \<Rightarrow> item option" where
  "InputItemSchema j =
     (case j of
        JObj kv \<Rightarrow>
          (case map_of kv ''type'' of
             None \<Rightarrow> InputMessageItemSchema j
           | Some (JStr t) \<Rightarrow>
               (case map_of [(''message'', InputMessageItemSchema),
                             (''function_call'', FunctionCallItemSchema),
                             (''function_call_output'', FunctionCallOutputItemSchema),
                             (''item_reference'', ItemReferenceSchema)] t of
                  None \<Rightarrow> None
                | Some p \<Rightarrow> p j)
           | Some other \<Rightarrow> None)
      | _ \<Rightarrow> None)"

subsection \<open>Tools, tool choice, text format, reasoning\<close>

definition FunctionToolSchema :: "json \<Rightarrow> json option" where
  "FunctionToolSchema =
     v_object [(''type'', Required, v_literal ''function''),
               (''name'', Required, v_string),
               (''description'', Optional, v_string),
               (''parameters'', Optional, checked (z_record v_unknown)),
               (''strict'', Optional, v_boolean)]"

definition WebSearchToolSchema :: "json \<Rightarrow> json option" where
  "WebSearchToolSchema =
     v_object [(''type'', Required, v_literal ''web_search_preview''),
               (''search_context_size'', Optional, v_enum [''low'', ''medium'', ''high'']),
               (''user_location'', Optional,
                  v_object [(''type'', Required, v_literal ''approximate''),
                            (''city'', Optional, v_string),
                            (''country'', Optional, v_string),
                            (''region'', Optional, v_string),
                            (''timezone'', Optional, v_string)])]"

definition FileSearchToolSchema :: "json \<Rightarrow> json option" where
  "FileSearchToolSchema =
     v_object [(''type'', Required, v_literal ''file_search''),
               (''vector_store_ids'', Required, v_strings),
               (''max_num_results'', Optional, v_int),
               (''ranking_options'', Optional,
                  v_object [(''ranker'', Optional, v_string),
                            (''score_threshold'', Optional, v_number)]),
               (''filters'', Optional, v_unknown)]"

definition CodeInterpreterToolSchema :: "json \<Rightarrow> json option" where
  "CodeInterpreterToolSchema =
     v_object [(''type'', Required, v_literal ''code_interpreter''),
               (''container'', Optional,
                  v_object [(''type'', Required, v_literal ''auto''),
                            (''file_ids'', Optional, v_strings)])]"

definition ImageGenerationToolSchema :: "json \<Rightarrow> json option" where
  "ImageGenerationToolSchema =
     v_object [(''type'', Required, v_literal ''image_generation''),
               (''background'', Optional, v_enum [''transparent'', ''opaque'', ''auto'']),
               (''input_image_mask'', Optional,
                  v_object [(''image_url'', Required, v_string),
                            (''type'', Required, v_literal ''mask'')]),
               (''output_compression'', Optional, v_int),
               (''output_format'', Optional, v_enum [''png'', ''jpeg'', ''webp'']),
               (''partial_images'', Optional, v_int),
               (''quality'', Optional, v_enum [''auto'', ''low'', ''medium'', ''high'']),
               (''size'', Optional, v_enum [''auto'', ''1024x1024'', ''1024x1536'', ''1536x1024''])]"

definition ComputerUseToolSchema :: "json \<Rightarrow> json option" where
  "ComputerUseToolSchema =
     v_object [(''type'', Required, v_literal ''computer_use_preview''),
               (''display_width'', Required, v_int),
               (''display_height'', Required, v_int),
               (''environment'', Optional,
                  v_enum [''browser'', ''mac'', ''windows'', ''linux'', ''ubuntu''])]"

definition McpToolSchema :: "json \<Rightarrow> json option" where
  "McpToolSchema =
     v_object [(''type'', Required, v_literal ''mcp''),
               (''server_label'', Required, v_string),
               (''server_url'', Required, v_string),
               (''allowed_tools'', Optional, v_strings),
               (''headers'', Optional, checked (z_record z_string)),
               (''require_approval'', Optional,
                  z_union [v_literal ''always'', v_literal ''never'',
                           v_object [(''never'', Required,
                                        v_object [(''tool_names'', Required, v_strings)])]])]"

definition ToolSchema :: "json \<Rightarrow> json option" where
  "ToolSchema =
     z_discriminated ''type''
       [(''function'', FunctionToolSchema),
        (''web_search_preview'', WebSearchToolSchema),
        (''file_search'', FileSearchToolSchema),
        (''code_interpreter'', CodeInterpreterToolSchema),
        (''image_generation'', ImageGenerationToolSchema),
        (''computer_use_preview'', ComputerUseToolSchema),
        (''mcp'', McpToolSchema)]"

definition ToolChoiceObjectSchema :: "json \<Rightarrow> json option" where
  "ToolChoiceObjectSchema =
     z_discriminated ''type''
       [(''function'', v_object [(''type'', Required, v_literal ''function''),
                                 (''name'', Required, v_string)]),
        (''allowed_tools'', v_object [(''type'', Required, v_literal ''allowed_tools''),
                                      (''allowed_tools'', Required, v_strings)])]"

definition ToolChoiceSchema :: "json \<Rightarrow> json option" where
  "ToolChoiceSchema = z_union [v_enum [''auto'', ''required'', ''none''], ToolChoiceObjectSchema]"

definition TextFormatSchema :: "json \<Rightarrow> json option" where
  "TextFormatSchema =
     v_object [(''format'', Required,
        z_discriminated ''type''
          [(''text'', v_object [(''type'', Required, v_literal ''text'')]),
           (''json_schema'', v_object [(''type'', Required, v_literal ''json_schema''),
                                       (''name'', Required, v_string),
                                       (''schema'', Required, checked (z_record v_unknown)),
                                       (''description'', Optional, v_string),
                                       (''strict'', Optional, v_boolean)]),
           (''json_object'', v_object [(''type'', Required, v_literal ''json_object'')])])]"

definition ReasoningSchema :: "json \<Rightarrow> json option" where
  "ReasoningSchema =
     v_object [(''effort'', Optional, v_enum [''low'', ''medium'', ''high'']),
               (''summary'', Optional, v_enum [''auto'', ''concise'', ''detailed''])]"

subsection \<open>The request\<close>

definition ResponsesRequestSchema :: "json \<Rightarrow> request option" where
  "ResponsesRequestSchema body = do {
     kv \<leftarrow> z_object body;
     p_model \<leftarrow> required z_string (map_of kv ''model'');
     p_input \<leftarrow> required (z_union [\<lambda>v. map_option StringInput (z_string v),
                                    \<lambda>v. map_option ArrayInput (z_array InputItemSchema v)])
                  (map_of kv ''input'');
     p_stream \<leftarrow> optional_default False z_boolean (map_of kv ''stream'');
     p_instructions \<leftarrow> nullable_optional z_string (map_of kv ''instructions'');
     p_previous \<leftarrow> nullable_optional z_string (map_of kv ''previous_response_id'');
     p_tools \<leftarrow> optional_default [] (z_array ToolSchema) (map_of kv ''tools'');
     p_tool_choice \<leftarrow> optional_default (JStr ''auto'') ToolChoiceSchema (map_of kv ''tool_choice'');
     p_temperature \<leftarrow> nullable_optional (z_min_max 0 2) (map_of kv ''temperature'');
     p_top_p \<leftarrow> nullable_optional (z_min_max 0 1) (map_of kv ''top_p'');
     p_max_output_tokens \<leftarrow> nullable_optional z_int_positive (map_of kv ''max_output_tokens'');
     p_store \<leftarrow> optional_default True z_boolean (map_of kv ''store'');
     p_background \<leftarrow> optional_default False z_boolean (map_of kv ''background'');
     p_metadata \<leftarrow> optional_default [] (z_record z_string) (map_of kv ''metadata'');
     p_truncation \<leftarrow> optional_default ''disabled'' (z_enum [''auto'', ''disabled''])
                       (map_of kv ''truncation'');
     p_parallel \<leftarrow> optional_default True z_boolean (map_of kv ''parallel_tool_calls'');
     p_text \<leftarrow> optional TextFormatSchema (map_of kv ''text'');
     p_reasoning \<leftarrow> nullable_optional ReasoningSchema (map_of kv ''reasoning'');
     Some \<lparr> model = p_model, input = p_input, stream = p_stream, instructions = p_instructions,
            previous_response_id = p_previous, tools = p_tools, tool_choice = p_tool_choice,
            temperature = p_temperature, top_p = p_top_p,
            max_output_tokens = p_max_output_tokens, store = p_store,
            background = p_background, metadata = p_metadata, truncation = p_truncation,
            parallel_tool_calls = p_parallel, text_format = p_text, reasoning = p_reasoning \<rparr> }"

text \<open>
  \<open>POST /v1/responses\<close> from step 4 on, given the parsed JSON body: validation (400 when
  it fails), the check for built-in tools (501), then \<open>runResponse\<close>.
\<close>

datatype route_result =
    BadRequest
  | NotImplemented
  | ErrorResponse api_error
  | Handled handler request "item list"

definition builtinTypes :: "string list" where
  "builtinTypes = [''web_search_preview'', ''file_search'', ''code_interpreter'',
                   ''image_generation'', ''computer_use_preview'']"

definition hasBuiltin :: "json list \<Rightarrow> bool" where
  "hasBuiltin ts =
     list_ex (\<lambda>t. case t of
                     JObj kv \<Rightarrow> (case map_of kv ''type'' of
                                   Some (JStr ty) \<Rightarrow> ty \<in> set builtinTypes
                                 | _ \<Rightarrow> False)
                   | _ \<Rightarrow> False) ts"

definition POST_responses :: "database \<Rightarrow> json \<Rightarrow> route_result" where
  "POST_responses d body =
     (case ResponsesRequestSchema body of
        None \<Rightarrow> BadRequest
      | Some req \<Rightarrow>
          if hasBuiltin (tools req) then NotImplemented
          else (case runResponse d req of
                  Inl e \<Rightarrow> ErrorResponse e
                | Inr (h, inputItems) \<Rightarrow> Handled h req inputItems))"

section \<open>Notions used to state the properties\<close>

text \<open>The \<open>sequence_number\<close> field of an event on the wire, when the event has one.\<close>

fun sequence_number :: "sse_event \<Rightarrow> nat option" where
  "sequence_number (ResponseInProgress n r) = Some n"
| "sequence_number (OutputItemAdded n i it) = Some n"
| "sequence_number (ContentPartAdded n m i c p) = Some n"
| "sequence_number (OutputTextDelta n m i c dl) = Some n"
| "sequence_number (OutputTextDone n m i c t) = Some n"
| "sequence_number (ContentPartDone n m i c p) = Some n"
| "sequence_number (OutputItemDone n i it) = Some n"
| "sequence_number (ResponseCompleted n r) = Some n"
| "sequence_number (ResponseFailed n r) = Some n"
| "sequence_number (ErrorEvent t m c) = None"
| "sequence_number DoneSentinel = None"

definition sequence_numbers :: "sse_event list \<Rightarrow> nat list" where
  "sequence_numbers evs = List.map_filter sequence_number evs"

text \<open>
  The output items \<open>collectOutputItems\<close> returns in a state, written out: the reasoning
  item first when thinking was accumulated, then the message when the text item is open,
  then the function calls in the order they started.
\<close>

definition ids_for_collect :: "stream_state \<Rightarrow> nat" where
  "ids_for_collect st =
     (if textItemOpened st then 1 else 0) + (if accumulatedThinking st \<noteq> [] then 1 else 0)"

definition collected :: "stream_ctx \<Rightarrow> stream_state \<Rightarrow> output_item list" where
  "collected ctx st =
     (if accumulatedThinking st \<noteq> []
      then [ReasoningItem
              (''rs_'' @ randomHex (ctx_env ctx) (idsDrawn st + (if textItemOpened st then 1 else 0)))
              (accumulatedThinking st) ItemCompleted]
      else [])
     @ (if textItemOpened st
        then [MessageItem (messageId ctx) ItemCompleted [OutputText (accumulatedText st) []]]
        else [])
     @ map function_call_item (functionCalls st)"

definition seq_inv :: "stream_state \<Rightarrow> bool" where
  "seq_inv st = (sequence_numbers (wire st) = map Suc [0..<sequence st])"

text \<open>What has been written stays written: every step only appends to the wire.\<close>

definition extends_wire :: "stream_state \<Rightarrow> stream_state \<Rightarrow> bool" where
  "extends_wire st st' = (\<exists>sfx. wire st' = wire st @ sfx)"



subsection \<open>The history of a stream\<close>

text \<open>
  Properties of the list of actions a stream has gone through: whether a \<open>text_delta\<close>
  has arrived, how many \<open>tool_call_start\<close> events have arrived (in all, and before the
  first \<open>text_delta\<close>), how many output items have appeared, the text received so far.
\<close>

fun is_text_delta :: "action \<Rightarrow> bool" where
  "is_text_delta (Yield (TextDelta dl)) = True"
| "is_text_delta a = False"

fun is_tool_call_start :: "action \<Rightarrow> bool" where
  "is_tool_call_start (Yield (ToolCallStart c n oi)) = True"
| "is_tool_call_start a = False"

fun delta_of :: "action \<Rightarrow> string" where
  "delta_of (Yield (TextDelta dl)) = dl"
| "delta_of a = []"

definition has_text :: "action list \<Rightarrow> bool" where
  "has_text acts = list_ex is_text_delta acts"

definition tool_starts :: "action list \<Rightarrow> nat" where
  "tool_starts acts = length (filter is_tool_call_start acts)"

definition items_opened :: "action list \<Rightarrow> int" where
  "items_opened acts = (if has_text acts then 1 else 0) + int (tool_starts acts)"

definition text_so_far :: "action list \<Rightarrow> string" where
  "text_so_far acts = concat (map delta_of acts)"

text \<open>
  The events that belong to the message item: \<open>output_item.added\<close> and
  \<open>output_item.done\<close> of a message, \<open>content_part.*\<close>, \<open>output_text.*\<close>.
\<close>

fun message_event :: "sse_event \<Rightarrow> bool" where
  "message_event (OutputItemAdded n i (MessageItem m s c)) = True"
| "message_event (OutputItemDone n i (MessageItem m s c)) = True"
| "message_event (ContentPartAdded n m i c p) = True"
| "message_event (ContentPartDone n m i c p) = True"
| "message_event (OutputTextDelta n m i c dl) = True"
| "message_event (OutputTextDone n m i c t) = True"
| "message_event ev = False"

definition tools_before_text :: "action list \<Rightarrow> nat" where
  "tools_before_text acts = tool_starts (takeWhile (\<lambda>a. \<not> is_text_delta a) acts)"

text \<open>The wire holds the \<open>output_item.added\<close> of the message, at the message's index.\<close>

definition message_added :: "stream_ctx \<Rightarrow> stream_state \<Rightarrow> bool" where
  "message_added ctx st =
     (\<exists>k. OutputItemAdded k (messageOutputIndex st) (MessageItem (messageId ctx) ItemInProgress [])
            \<in> set (wire st))"

subsection \<open>The function calls and the thinking of a history\<close>

text \<open>
  What the history says of the function calls. A \<open>tool_call_delta\<close> or
  \<open>tool_call_done\<close> reaches the call that was started first with its \<open>callId\<close>, so a
  call whose \<open>callId\<close> was already in use stays as it was started. For the other
  calls, \<open>call_arguments\<close> reads the arguments off the actions that follow the start
  (a delta appends, a done replaces) and \<open>call_done\<close> says whether a done followed.
\<close>

fun call_arguments :: "string \<Rightarrow> action list \<Rightarrow> string \<Rightarrow> string" where
  "call_arguments c [] acc = acc"
| "call_arguments c (Yield (ToolCallDelta c' dl) # rest) acc =
     call_arguments c rest (if c' = c then acc @ dl else acc)"
| "call_arguments c (Yield (ToolCallDone c' args oi) # rest) acc =
     call_arguments c rest (if c' = c then args else acc)"
| "call_arguments c (a # rest) acc = call_arguments c rest acc"

fun is_done_of :: "string \<Rightarrow> action \<Rightarrow> bool" where
  "is_done_of c (Yield (ToolCallDone c' args oi)) = (c' = c)"
| "is_done_of c a = False"

definition call_done :: "string \<Rightarrow> action list \<Rightarrow> bool" where
  "call_done c acts = list_ex (is_done_of c) acts"

text \<open>
  The calls of a history, in the order of their starts: \<open>call_id\<close>, name, arguments, and
  whether the call is done. \<open>seen\<close> holds the \<open>callId\<close>s of the calls started before.
\<close>

fun expected_calls :: "string set \<Rightarrow> action list \<Rightarrow> (string \<times> string \<times> string \<times> bool) list" where
  "expected_calls seen [] = []"
| "expected_calls seen (Yield (ToolCallStart c n oi) # rest) =
     (if c \<in> seen then (c, n, [], False)
      else (c, n, call_arguments c rest [], call_done c rest))
     # expected_calls (insert c seen) rest"
| "expected_calls seen (a # rest) = expected_calls seen rest"

text \<open>The thinking text of a history: a delta appends, a done replaces.\<close>

fun thinking_after :: "string \<Rightarrow> action list \<Rightarrow> string" where
  "thinking_after t [] = t"
| "thinking_after t (Yield (ThinkingDelta dl) # rest) = thinking_after (t @ dl) rest"
| "thinking_after t (Yield (ThinkingDone txt) # rest) = thinking_after txt rest"
| "thinking_after t (a # rest) = thinking_after t rest"

text \<open>The ids of the function calls announced on the wire by \<open>output_item.added\<close>.\<close>

fun announced_call_id :: "sse_event \<Rightarrow> string list" where
  "announced_call_id (OutputItemAdded k i (FunctionCallItem fid c s nm a)) = [fid]"
| "announced_call_id ev = []"

definition announced_call_ids :: "sse_event list \<Rightarrow> string list" where
  "announced_call_ids evs = concat (map announced_call_id evs)"

text \<open>
  The function-call items that go with announced ids and the calls of a history.
\<close>

definition call_items :: "string list \<Rightarrow> (string \<times> string \<times> string \<times> bool) list \<Rightarrow> output_item list" where
  "call_items ids calls =
     map (\<lambda>(i, c, n, a, d). FunctionCallItem i c (if d then ItemCompleted else ItemIncomplete) n a)
       (zip ids calls)"

text \<open>
  For the proofs: what the state records of a call, and how the calls recorded in a state
  change over further actions.
\<close>

definition call_view :: "function_call_acc \<Rightarrow> string \<times> string \<times> string \<times> bool" where
  "call_view fc = (callId fc, fc_name fc, fc_arguments fc, fc_done fc)"

fun evolve ::
  "string set \<Rightarrow> (string \<times> string \<times> string \<times> bool) list \<Rightarrow> action list \<Rightarrow>
   (string \<times> string \<times> string \<times> bool) list" where
  "evolve seen [] acts = []"
| "evolve seen ((c, n, a, d) # vs) acts =
     (if c \<in> seen then (c, n, a, d)
      else (c, n, call_arguments c acts a, d \<or> call_done c acts))
     # evolve (insert c seen) vs acts"

text \<open>The \<open>callId\<close> a delta or a done is addressed to.\<close>

fun addressed :: "action \<Rightarrow> string option" where
  "addressed (Yield (ToolCallDelta c dl)) = Some c"
| "addressed (Yield (ToolCallDone c args oi)) = Some c"
| "addressed a = None"

section \<open>Sample values\<close>

definition example_request :: request where
  "example_request =
     \<lparr> model = ''gpt-oss-20b-responses'', input = StringInput ''Hi'', stream = True, instructions = None,
       previous_response_id = None, tools = [], tool_choice = JStr ''auto'',
       temperature = None, top_p = None, max_output_tokens = None, store = True,
       background = False, metadata = [], truncation = ''disabled'',
       parallel_tool_calls = True, text_format = None, reasoning = None \<rparr>"

definition example_env :: env where
  "example_env = \<lparr> randomHex = (\<lambda>k. replicate (Suc k) CHR ''a''), clock = 100 \<rparr>"

definition example_usage :: provider_usage where
  "example_usage = \<lparr> inputTokens = 10, outputTokens = 5, cacheReadTokens = None \<rparr>"

definition example_ctx :: stream_ctx where
  "example_ctx = mk_ctx example_env example_request [] 100"

definition in_progress_db :: database where
  "in_progress_db =
     persistResponse 100 ''resp_a'' example_request [] InProgress [] None 100 None None Map.empty"

definition cancelled_db :: database where
  "cancelled_db = snd (cancel_POST 105 ''resp_a'' in_progress_db)"

text \<open>A stored response that was interrupted, with its partial output.\<close>

definition incomplete_db :: database where
  "incomplete_db =
     persistResponse 100 ''resp_prev'' example_request
       [InputMessage User (StringContent ''Original question'')] Incomplete
       [MessageItem ''msg_prev'' ItemIncomplete [OutputText ''Partial answer...'' []]] None 100 None
       (Some (IncompleteReason ''interrupted'')) Map.empty"

definition provider_exploded :: thrown where
  "provider_exploded =
     \<lparr> is_DOMException = False, is_Error = True, err_name = ''Error'',
       is_APIUserAbortError = False, err_message = ''Provider exploded'' \<rparr>"

definition abort_error :: thrown where
  "abort_error =
     \<lparr> is_DOMException = True, is_Error = True, err_name = ''AbortError'',
       is_APIUserAbortError = False, err_message = ''The operation was aborted.'' \<rparr>"

text \<open>Request bodies.\<close>

definition background_without_store :: json where
  "background_without_store =
     JObj [(''model'', JStr ''gpt-oss-20b-responses''), (''input'', JStr ''Hi''),
           (''background'', JBool True), (''store'', JBool False)]"

definition temperature_out_of_range :: json where
  "temperature_out_of_range =
     JObj [(''model'', JStr ''gpt-oss-20b-responses''), (''input'', JStr ''Hi''),
           (''temperature'', JNum 3)]"

definition background_with_store :: json where
  "background_with_store =
     JObj [(''model'', JStr ''gpt-oss-20b-responses''), (''input'', JStr ''Hi''),
           (''temperature'', JNum 0.7), (''top_p'', JNum 1), (''max_output_tokens'', JNum 256),
           (''background'', JBool True)]"

text \<open>A stream with text, a finished and an unfinished function call, then an abort.\<close>

definition abort_after_tool_calls :: "action list" where
  "abort_after_tool_calls =
     [Yield (TextDelta ''Hello''),
      Yield (ToolCallStart ''call_a'' ''get_weather'' 0),
      Yield (ToolCallDelta ''call_a'' ''{}''),
      TimerFires,
      Yield (ToolCallDone ''call_a'' ''{ }'' 0),
      Yield (ToolCallStart ''call_b'' ''get_time'' 1),
      Yield (ToolCallDelta ''call_b'' ''{''),
      Yield (TextDelta '' partial'')]"

section \<open>Basic facts about the streaming operations\<close>

lemma cancelPartialUpdate_eq: "cancelPartialUpdate st = st\<lparr>partialUpdateTimer := False\<rparr>"
  by (simp add: cancelPartialUpdate_def)

lemma collectOutputItems_eq:
  "collectOutputItems ctx st = (collected ctx st, st\<lparr>idsDrawn := idsDrawn st + ids_for_collect st\<rparr>)"
  by (simp add: collectOutputItems_def collected_def ids_for_collect_def createTextMessageItem_def
      newId_def)

lemma buildResponseObject_eq:
  "buildResponseObject ctx status st =
     (createResponseObject (''resp_'' @ randomHex (ctx_env ctx) (idsDrawn st + ids_for_collect st))
        (clock (ctx_env ctx)) (ctx_request ctx) (collected ctx st) (responseUsage st) status,
      st\<lparr>idsDrawn := Suc (idsDrawn st + ids_for_collect st)\<rparr>)"
  by (simp add: buildResponseObject_def collectOutputItems_eq newId_def)

lemma run_stream_Nil: "run_stream ctx [] st = st"
  by (simp add: run_stream_def)

lemma run_stream_Cons: "run_stream ctx (a # acts) st = run_stream ctx acts (on_action ctx st a)"
  by (simp add: run_stream_def)

lemma run_stream_snoc: "run_stream ctx (acts @ [a]) st = on_action ctx (run_stream ctx acts st) a"
  by (simp add: run_stream_def)

section \<open>Sequence numbers\<close>

lemma sequence_numbers_append:
  "sequence_numbers (xs @ ys) = sequence_numbers xs @ sequence_numbers ys"
  by (simp add: sequence_numbers_def map_filter_def)

lemma sequence_numbers_simps:
  "sequence_numbers [] = []"
  "sequence_numbers (ev # evs) =
     (case sequence_number ev of None \<Rightarrow> [] | Some n \<Rightarrow> [n]) @ sequence_numbers evs"
  by (simp_all add: sequence_numbers_def map_filter_def split: option.splits)

lemma seq_inv_on_event: "seq_inv st \<Longrightarrow> seq_inv (on_event ctx ev st)"
  by (cases ev)
     (simp_all add: seq_inv_def ensureTextItemOpened_def Let_def emit_def sequence_numbers_append
        sequence_numbers_simps schedulePartialUpdate_def newId_def buildResponseObject_eq
        split: option.splits)

lemma seq_inv_on_action: "seq_inv st \<Longrightarrow> seq_inv (on_action ctx st a)"
  by (cases a)
     (simp_all add: seq_inv_on_event, simp add: seq_inv_def timer_callback_def collectOutputItems_eq)

lemma seq_inv_run: "seq_inv st \<Longrightarrow> seq_inv (run_stream ctx acts st)"
  by (induction acts arbitrary: st) (simp_all add: run_stream_Nil run_stream_Cons seq_inv_on_action)

lemma seq_inv_start: "seq_inv (stream_start ctx d)"
  by (simp add: seq_inv_def stream_start_def emit_def sequence_numbers_simps)

lemma seq_inv_finish: "seq_inv st \<Longrightarrow> seq_inv (stream_finish ctx st)"
  by (simp add: seq_inv_def stream_finish_def Let_def write_sse_def cancelPartialUpdate_eq
      buildResponseObject_eq sequence_numbers_append sequence_numbers_simps)

lemma seq_inv_catch: "seq_inv st \<Longrightarrow> seq_inv (stream_catch ctx err st)"
  by (simp add: seq_inv_def stream_catch_def Let_def write_sse_def emit_def cancelPartialUpdate_eq
      buildResponseObject_eq collectOutputItems_eq sequence_numbers_append sequence_numbers_simps)

lemma seq_inv_streamResponse: "seq_inv (streamResponse e req inputItems created acts ending d)"
  by (cases ending)
     (simp_all add: streamResponse_def Let_def stream_ending_def seq_inv_finish seq_inv_catch
        seq_inv_run seq_inv_start)

lemma extends_wire_refl: "extends_wire st st"
  by (simp add: extends_wire_def)

lemma extends_wire_trans: "extends_wire a b \<Longrightarrow> extends_wire b c \<Longrightarrow> extends_wire a c"
  by (auto simp: extends_wire_def)

lemma extends_wire_on_event: "extends_wire st (on_event ctx ev st)"
  by (cases ev)
     (simp_all add: extends_wire_def ensureTextItemOpened_def Let_def emit_def
        schedulePartialUpdate_def newId_def buildResponseObject_eq split: option.splits)

lemma extends_wire_on_action: "extends_wire st (on_action ctx st a)"
  by (cases a)
     (simp_all add: extends_wire_on_event, simp add: extends_wire_def timer_callback_def
        collectOutputItems_eq)

lemma extends_wire_run: "extends_wire st (run_stream ctx acts st)"
proof (induction acts arbitrary: st)
  case Nil
  show ?case by (simp add: run_stream_Nil extends_wire_refl)
next
  case (Cons a acts)
  show ?case
    unfolding run_stream_Cons
    by (rule extends_wire_trans [OF extends_wire_on_action Cons.IH])
qed

lemma extends_wire_ending: "extends_wire st (stream_ending ctx ending st)"
  by (cases ending)
     (simp_all add: extends_wire_def stream_ending_def stream_finish_def stream_catch_def Let_def
        write_sse_def emit_def cancelPartialUpdate_eq buildResponseObject_eq collectOutputItems_eq)

lemma wire_stream_start: "wire (stream_start ctx d) = [ResponseInProgress 1 (responseId ctx)]"
  by (simp add: stream_start_def emit_def)

section \<open>Writes to the table, and sequence numbers\<close>

text \<open>
  The two guarded writers leave a row in a terminal status as it is; the upsert gives the
  row the status it is called with, whatever status the row had.
\<close>

lemma guarded_writes_keep_terminal_rows:
  "d rid = Some row \<Longrightarrow> terminal (row_status row) \<Longrightarrow>
     persistPartialOutput rid outputItems d = d \<and> snd (cancel_POST now rid d) = d"
  by (auto simp: terminal_def persistPartialOutput_def cancel_POST_def)

lemma persistResponse_sets_status:
  "map_option row_status
     (persistResponse now rid req inputItems status outputItems usg created err inc d rid)
   = Some status"
  by (cases "d rid") (simp_all add: persistResponse_def)

text \<open>
  C6. A partial-output update of a row whose status is not \<open>in_progress\<close> changes nothing:
  the table after \<open>persistPartialOutput\<close> is the table before, so the row is unchanged in
  every column; the same holds when the debounce timer of a stream fires and its callback
  makes the update.
\<close>

theorem persistPartialOutput_noop_unless_in_progress:
  "d rid = Some row \<Longrightarrow> row_status row \<noteq> InProgress \<Longrightarrow>
     persistPartialOutput rid outputItems d = d
   \<and> (db st = d \<and> responseId ctx = rid \<longrightarrow> db (timer_callback ctx st) = d)"
  by (simp add: persistPartialOutput_def timer_callback_def collectOutputItems_eq)

theorem persistPartialOutput_noop_unless_in_progress_witness:
  "map_option row_status (cancelled_db ''resp_a'') = Some Cancelled
   \<and> persistPartialOutput ''resp_a'' [MessageItem ''msg_a'' ItemCompleted [OutputText ''Hel'' []]]
       cancelled_db = cancelled_db
   \<and> db (timer_callback example_ctx
           ((run_stream example_ctx [Yield (TextDelta ''Hel'')] (stream_start example_ctx Map.empty))
              \<lparr>db := cancelled_db\<rparr>)) = cancelled_db"
proof -
  have c: "map_option row_status (cancelled_db ''resp_a'') = Some Cancelled"
    by (simp add: cancelled_db_def in_progress_db_def cancel_POST_def persistResponse_def)
  then obtain row where r: "cancelled_db ''resp_a'' = Some row" and s: "row_status row = Cancelled"
    by auto
  from s have n: "row_status row \<noteq> InProgress" by simp
  have i: "responseId example_ctx = ''resp_a''"
    by (simp add: example_ctx_def mk_ctx_def example_env_def)
  show ?thesis
    using c i persistPartialOutput_noop_unless_in_progress
            [where d = cancelled_db and rid = "''resp_a''" and row = row and ctx = example_ctx
               and st = "(run_stream example_ctx [Yield (TextDelta ''Hel'')]
                            (stream_start example_ctx Map.empty))\<lparr>db := cancelled_db\<rparr>",
             OF r n]
    by simp
qed

text \<open>
  C1. Once a row is \<open>cancelled\<close>, \<open>completed\<close>, \<open>failed\<close> or \<open>incomplete\<close>, no later
  write should change its status. The upsert of \<open>persistResponse\<close> does not keep to
  this, since it sets the status without looking at the stored one: a row that the
  cancel endpoint has set to \<open>cancelled\<close> while its stream was running becomes
  \<open>completed\<close> when the stream ends and makes its final persist, and keeps its
  \<open>cancelled_at\<close>.
\<close>

theorem final_persist_overwrites_cancelled:
  "(let ctx = mk_ctx example_env example_request [] 100;
        st = run_stream ctx [Yield (TextDelta ''Hi'')] (stream_start ctx Map.empty);
        cancelled = cancel_POST 105 (responseId ctx) (db st);
        fin = stream_finish ctx
                (run_stream ctx [Yield (MessageDone EndTurn example_usage)]
                   (st\<lparr>db := snd cancelled\<rparr>))
    in (fst cancelled,
        map_option row_status (snd cancelled (responseId ctx)),
        map_option row_status (db fin (responseId ctx)),
        map_option cancelledAt (db fin (responseId ctx))))
   = (CancelOk, Some Cancelled, Some Completed, Some (Some 105))"
  by code_simp

text \<open>
  C5, as amended. Every event on the wire other than the \<open>error\<close> event and the
  \<open>[DONE]\<close> sentinel carries a sequence number; in the order of emission these numbers
  are 1, 2, 3, ... without gap, so they increase strictly, and the first event of every
  stream is \<open>response.in_progress\<close> with sequence number 1.
\<close>

theorem sequence_numbers_count_from_one:
  "sequence_numbers (wire (streamResponse e req inputItems created acts ending d))
     = [1..<Suc (sequence (streamResponse e req inputItems created acts ending d))]
   \<and> sorted_wrt (<) (sequence_numbers (wire (streamResponse e req inputItems created acts ending d)))
   \<and> (\<exists>rest. wire (streamResponse e req inputItems created acts ending d)
              = ResponseInProgress 1 (''resp_'' @ randomHex e 0) # rest)
   \<and> (\<forall>ev \<in> set (wire (streamResponse e req inputItems created acts ending d)).
         sequence_number ev = None \<longrightarrow> ev = DoneSentinel \<or> (\<exists>t m c. ev = ErrorEvent t m c))"
proof -
  let ?fin = "streamResponse e req inputItems created acts ending d"
  let ?ctx = "mk_ctx e req inputItems created"
  have "sequence_numbers (wire ?fin) = map Suc [0..<sequence ?fin]"
    using seq_inv_streamResponse [of e req inputItems created acts ending d]
    by (simp add: seq_inv_def)
  then have eq: "sequence_numbers (wire ?fin) = [1..<Suc (sequence ?fin)]"
    by (simp add: map_Suc_upt)
  have sorted: "sorted_wrt (<) (sequence_numbers (wire ?fin))"
    by (simp only: eq sorted_wrt_upt)
  have "extends_wire (stream_start ?ctx d) ?fin"
    unfolding streamResponse_def Let_def
    by (rule extends_wire_trans [OF extends_wire_run extends_wire_ending])
  then have first: "\<exists>rest. wire ?fin = ResponseInProgress 1 (''resp_'' @ randomHex e 0) # rest"
    by (simp add: extends_wire_def wire_stream_start mk_ctx_def)
  have others: "\<forall>ev \<in> set (wire ?fin).
      sequence_number ev = None \<longrightarrow> ev = DoneSentinel \<or> (\<exists>t m c. ev = ErrorEvent t m c)"
  proof
    fix ev
    show "sequence_number ev = None \<longrightarrow> ev = DoneSentinel \<or> (\<exists>t m c. ev = ErrorEvent t m c)"
      by (cases ev) simp_all
  qed
  from eq sorted first others show ?thesis by blast
qed

theorem sequence_numbers_count_from_one_witness:
  "sequence_numbers
     (wire (streamResponse example_env example_request [] 100
        [Yield (TextDelta ''Hello''), Yield (TextDelta '' world''),
         Yield (MessageDone EndTurn example_usage)] Finished Map.empty))
   = [1, 2, 3, 4, 5, 6, 7, 8, 9]"
proof -
  have n: "sequence (streamResponse example_env example_request [] 100
        [Yield (TextDelta ''Hello''), Yield (TextDelta '' world''),
         Yield (MessageDone EndTurn example_usage)] Finished Map.empty) = 9"
    by code_simp
  have u: "[1..<Suc 9] = [1, 2, 3, 4, 5, 6, 7, 8, 9]"
    by code_simp
  show ?thesis
    using sequence_numbers_count_from_one [of example_env example_request "[]" 100
        "[Yield (TextDelta ''Hello''), Yield (TextDelta '' world''),
          Yield (MessageDone EndTurn example_usage)]" Finished Map.empty]
    unfolding n u by blast
qed

text \<open>
  C5 as first stated, with a sequence number on every typed event, fails: when the
  provider throws an error that is not an abort, the second typed event of the stream is
  \<open>error\<close>, which has no \<open>sequence_number\<close> field.
\<close>

theorem error_event_without_sequence_number:
  "map sequence_number
     (wire (streamResponse example_env example_request [] 100 [] (Threw provider_exploded) Map.empty))
   = [Some 1, None, Some 2, None]
   \<and> wire (streamResponse example_env example_request [] 100 [] (Threw provider_exploded) Map.empty) ! 1
     = ErrorEvent ''server_error'' ''Provider exploded'' None"
  by code_simp

section \<open>Conversation assembly\<close>

lemma push_array_input_eq:
  "push_array_input seed xs = seed @ without_item_references xs"
  by (induction seed xs rule: push_array_input.induct)
     (simp_all add: without_item_references_def split: option.splits)


text \<open>
  C10. For an array input, \<open>buildInputItems\<close> gives the same result (the same item list,
  or the same error) as on the input with every \<open>item_reference\<close> entry deleted, whatever
  the table holds and whether or not a referenced id occurs among the items loaded from
  the previous response.
\<close>

theorem item_references_contribute_nothing:
  "buildInputItems d (req\<lparr>input := ArrayInput xs\<rparr>)
     = buildInputItems d (req\<lparr>input := ArrayInput (without_item_references xs)\<rparr>)"
  by (simp add: buildInputItems_def push_current_input_def push_array_input_eq
      without_item_references_def Let_def split: option.splits)

theorem item_references_contribute_nothing_witness:
  "buildInputItems incomplete_db
     (example_request\<lparr>previous_response_id := Some ''resp_prev'',
        input := ArrayInput [ItemReference ''msg_prev'', InputMessage User (StringContent ''go on''),
                             ItemReference ''msg_unknown'']\<rparr>)
   = Inr [InputMessage User (StringContent ''Original question''),
          Output (MessageItem ''msg_prev'' ItemIncomplete [OutputText ''Partial answer...'' []]),
          InputMessage User (StringContent ''go on'')]"
proof -
  have "buildInputItems incomplete_db
     (example_request\<lparr>previous_response_id := Some ''resp_prev'',
        input := ArrayInput (without_item_references
           [ItemReference ''msg_prev'', InputMessage User (StringContent ''go on''),
            ItemReference ''msg_unknown''])\<rparr>)
   = Inr [InputMessage User (StringContent ''Original question''),
          Output (MessageItem ''msg_prev'' ItemIncomplete [OutputText ''Partial answer...'' []]),
          InputMessage User (StringContent ''go on'')]"
    by code_simp
  then show ?thesis
    using item_references_contribute_nothing [where d = incomplete_db
        and req = "example_request\<lparr>previous_response_id := Some ''resp_prev''\<rparr>"
        and xs = "[ItemReference ''msg_prev'', InputMessage User (StringContent ''go on''),
          ItemReference ''msg_unknown'']"]
    by simp
qed




section \<open>The streaming path\<close>

lemmas step_defs = ensureTextItemOpened_def Let_def emit_def schedulePartialUpdate_def newId_def
  buildResponseObject_eq timer_callback_def collectOutputItems_eq

lemma textItemOpened_step:
  "textItemOpened (on_action ctx st a) = (textItemOpened st \<or> is_text_delta a)"
proof (cases a)
  case (Yield ev)
  then show ?thesis by (cases ev) (simp_all add: step_defs split: option.splits)
next
  case TimerFires
  then show ?thesis by (simp add: step_defs)
qed

lemma nextOutputIndex_step:
  "nextOutputIndex (on_action ctx st a)
     = nextOutputIndex st + (if is_text_delta a \<and> \<not> textItemOpened st then 1 else 0)
         + (if is_tool_call_start a then 1 else 0)"
proof (cases a)
  case (Yield ev)
  then show ?thesis by (cases ev) (simp_all add: step_defs split: option.splits)
next
  case TimerFires
  then show ?thesis by (simp add: step_defs)
qed

lemma accumulatedText_step:
  "accumulatedText (on_action ctx st a) = accumulatedText st @ delta_of a"
proof (cases a)
  case (Yield ev)
  then show ?thesis by (cases ev) (simp_all add: step_defs split: option.splits)
next
  case TimerFires
  then show ?thesis by (simp add: step_defs)
qed

lemma no_message_event_step:
  "\<not> textItemOpened st \<Longrightarrow> \<not> is_text_delta a \<Longrightarrow>
     list_all (\<lambda>ev. \<not> message_event ev) (wire st) \<Longrightarrow>
     list_all (\<lambda>ev. \<not> message_event ev) (wire (on_action ctx st a))"
proof (cases a)
  case (Yield ev)
  assume "\<not> textItemOpened st" "\<not> is_text_delta a"
    "list_all (\<lambda>ev. \<not> message_event ev) (wire st)"
  with Yield show ?thesis by (cases ev) (simp_all add: step_defs split: option.splits)
next
  case TimerFires
  assume "list_all (\<lambda>ev. \<not> message_event ev) (wire st)"
  with TimerFires show ?thesis by (simp add: step_defs)
qed

lemma reachable_text:
  "textItemOpened (run_stream ctx acts (stream_start ctx d)) = has_text acts
   \<and> nextOutputIndex (run_stream ctx acts (stream_start ctx d)) = items_opened acts
   \<and> accumulatedText (run_stream ctx acts (stream_start ctx d)) = text_so_far acts
   \<and> (\<not> has_text acts \<longrightarrow>
        list_all (\<lambda>ev. \<not> message_event ev) (wire (run_stream ctx acts (stream_start ctx d))))"
proof (induction acts rule: rev_induct)
  case Nil
  show ?case
    by (simp add: run_stream_Nil has_text_def items_opened_def tool_starts_def text_so_far_def
        stream_start_def emit_def)
next
  case (snoc a acts)
  then show ?case
    by (auto simp: run_stream_snoc textItemOpened_step nextOutputIndex_step accumulatedText_step
        has_text_def items_opened_def tool_starts_def text_so_far_def no_message_event_step)
qed

lemma messageOutputIndex_step:
  "messageOutputIndex (on_action ctx st a)
     = (if is_text_delta a \<and> \<not> textItemOpened st then nextOutputIndex st
        else messageOutputIndex st)"
proof (cases a)
  case (Yield ev)
  then show ?thesis by (cases ev) (simp_all add: step_defs split: option.splits)
next
  case TimerFires
  then show ?thesis by (simp add: step_defs)
qed

lemma tools_before_text_snoc:
  "tools_before_text (acts @ [a])
     = (if has_text acts then tools_before_text acts
        else tool_starts acts + (if is_tool_call_start a \<and> \<not> is_text_delta a then 1 else 0))"
proof (cases "has_text acts")
  case True
  then obtain x where "x \<in> set acts" "\<not> (\<lambda>a. \<not> is_text_delta a) x"
    by (auto simp: has_text_def list_ex_iff)
  then have "takeWhile (\<lambda>a. \<not> is_text_delta a) (acts @ [a]) = takeWhile (\<lambda>a. \<not> is_text_delta a) acts"
    by (rule takeWhile_append1)
  with True show ?thesis by (simp add: tools_before_text_def)
next
  case False
  then have "\<And>x. x \<in> set acts \<Longrightarrow> \<not> is_text_delta x"
    by (auto simp: has_text_def list_ex_iff)
  then have "takeWhile (\<lambda>a. \<not> is_text_delta a) (acts @ [a])
               = acts @ takeWhile (\<lambda>a. \<not> is_text_delta a) [a]"
    by (rule takeWhile_append2)
  with False show ?thesis by (simp add: tools_before_text_def tool_starts_def)
qed

lemma reachable_message_index:
  "messageOutputIndex (run_stream ctx acts (stream_start ctx d))
     = (if has_text acts then int (tools_before_text acts) else - 1)"
proof (induction acts rule: rev_induct)
  case Nil
  show ?case by (simp add: run_stream_Nil has_text_def stream_start_def emit_def)
next
  case (snoc a acts)
  have r: "textItemOpened (run_stream ctx acts (stream_start ctx d)) = has_text acts"
    "nextOutputIndex (run_stream ctx acts (stream_start ctx d)) = items_opened acts"
    using reachable_text [of ctx acts d] by simp_all
  have h: "has_text (acts @ [a]) = (has_text acts \<or> is_text_delta a)"
    by (simp add: has_text_def)
  show ?case
    using snoc
    by (simp add: run_stream_snoc messageOutputIndex_step r h tools_before_text_snoc
        items_opened_def)
qed

lemma wire_tool_call_start:
  "wire (on_event ctx (ToolCallStart cid nm oi) st)
     = wire st @ [OutputItemAdded (Suc (sequence st)) (nextOutputIndex st)
         (FunctionCallItem (''fc_'' @ randomHex (ctx_env ctx) (idsDrawn st)) cid ItemInProgress nm [])]"
  by (simp add: step_defs)

lemma wire_text_delta:
  "wire (on_event ctx (TextDelta dl) st)
     = wire st @
       (if textItemOpened st
        then [OutputTextDelta (Suc (sequence st)) (messageId ctx) (messageOutputIndex st) 0 dl]
        else [OutputItemAdded (Suc (sequence st)) (nextOutputIndex st)
                (MessageItem (messageId ctx) ItemInProgress []),
              ContentPartAdded (Suc (Suc (sequence st))) (messageId ctx) (nextOutputIndex st) 0
                (OutputText [] []),
              OutputTextDelta (Suc (Suc (Suc (sequence st)))) (messageId ctx) (nextOutputIndex st) 0 dl])"
  by (simp add: step_defs)

lemma wire_message_done:
  "textItemOpened st \<Longrightarrow>
   \<exists>resp. wire (on_event ctx (MessageDone reason u) st)
     = wire st @
       [OutputTextDone (Suc (sequence st)) (messageId ctx) (messageOutputIndex st) 0 (accumulatedText st),
        ContentPartDone (Suc (Suc (sequence st))) (messageId ctx) (messageOutputIndex st) 0
          (OutputText (accumulatedText st) []),
        OutputItemDone (Suc (Suc (Suc (sequence st)))) (messageOutputIndex st)
          (MessageItem (messageId ctx) ItemCompleted [OutputText (accumulatedText st) []]),
        ResponseCompleted (Suc (Suc (Suc (Suc (sequence st))))) resp]"
  by (simp add: step_defs)

lemma no_message_event_ending:
  "list_all (\<lambda>ev. \<not> message_event ev) (wire st) \<Longrightarrow>
   list_all (\<lambda>ev. \<not> message_event ev) (wire (stream_ending ctx ending st))"
  by (cases ending)
     (simp_all add: stream_ending_def stream_finish_def stream_catch_def Let_def
        write_sse_def emit_def cancelPartialUpdate_eq buildResponseObject_eq collectOutputItems_eq)

lemma persistResponse_row:
  "\<exists>row. persistResponse now rid req ii status out usg created err inc d rid = Some row
     \<and> row_status row = status \<and> outputItemsJson row = Some out
     \<and> incompleteDetailsJson row = inc \<and> errorJson row = err \<and> usageJson row = usg"
  by (cases "d rid") (simp_all add: persistResponse_def)

lemma collected_timer: "collected ctx (st\<lparr>partialUpdateTimer := b\<rparr>) = collected ctx st"
  by (simp add: collected_def)

lemma stream_catch_abort:
  "isAbort err \<Longrightarrow> store (ctx_request ctx) \<Longrightarrow>
   wire (stream_catch ctx err st) = wire st @ [DoneSentinel]
   \<and> \<not> partialUpdateTimer (stream_catch ctx err st)
   \<and> db (stream_catch ctx err st)
       = persistResponse (clock (ctx_env ctx)) (responseId ctx) (ctx_request ctx)
           (ctx_inputItems ctx) Incomplete (collected ctx st) (responseUsage st)
           (ctx_createdAt ctx) None (Some (IncompleteReason ''interrupted'')) (db st)"
  by (simp add: stream_catch_def Let_def cancelPartialUpdate_eq collectOutputItems_eq
      write_sse_def collected_timer)

subsection \<open>What a stream has accumulated, read off its history\<close>

lemma call_arguments_other:
  "addressed a \<noteq> Some c \<Longrightarrow> call_arguments c (a # acts) x = call_arguments c acts x"
  by (cases "(c, a # acts, x)" rule: call_arguments.cases) auto

lemma call_done_other:
  "addressed a \<noteq> Some c \<Longrightarrow> call_done c (a # acts) = call_done c acts"
  by (cases "(c, a)" rule: is_done_of.cases) (auto simp: call_done_def)

lemma evolve_other:
  "addressed a = None \<or> (\<exists>c \<in> seen. addressed a = Some c) \<Longrightarrow>
   evolve seen vs (a # acts) = evolve seen vs acts"
proof (induction vs arbitrary: seen)
  case Nil
  show ?case by simp
next
  case (Cons v vs)
  obtain c n x d where v: "v = (c, n, x, d)" by (cases v) auto
  have ih: "evolve (insert c seen) vs (a # acts) = evolve (insert c seen) vs acts"
    using Cons.prems by (intro Cons.IH) auto
  have "c \<notin> seen \<Longrightarrow> addressed a \<noteq> Some c" using Cons.prems by auto
  then show ?case
    unfolding v by (simp add: ih call_arguments_other call_done_other)
qed

lemma evolve_append:
  "evolve seen (vs @ ws) acts = evolve seen vs acts @ evolve (seen \<union> fst ` set vs) ws acts"
proof (induction vs arbitrary: seen)
  case Nil
  show ?case by simp
next
  case (Cons v vs)
  obtain c n x d where v: "v = (c, n, x, d)" by (cases v) auto
  have "insert c seen \<union> fst ` set vs = seen \<union> fst ` set (v # vs)"
    by (auto simp: v)
  then show ?case
    unfolding v using Cons.IH [of "insert c seen"] by (simp add: v)
qed

lemma evolve_delta:
  "c \<notin> seen \<Longrightarrow>
   evolve seen
     (map call_view (update_first (\<lambda>f. callId f = c)
        (\<lambda>f. f\<lparr>fc_arguments := fc_arguments f @ dl\<rparr>) fcs)) acts
   = evolve seen (map call_view fcs) (Yield (ToolCallDelta c dl) # acts)"
proof (induction fcs arbitrary: seen)
  case Nil
  show ?case by simp
next
  case (Cons fc fcs)
  show ?case
  proof (cases "callId fc = c")
    case True
    have "evolve (insert c seen) (map call_view fcs) (Yield (ToolCallDelta c dl) # acts)
            = evolve (insert c seen) (map call_view fcs) acts"
      by (rule evolve_other) simp
    moreover have "call_view (fc\<lparr>fc_arguments := fc_arguments fc @ dl\<rparr>)
                     = (c, fc_name fc, fc_arguments fc @ dl, fc_done fc)"
      "call_view fc = (c, fc_name fc, fc_arguments fc, fc_done fc)"
      using True by (simp_all add: call_view_def)
    ultimately show ?thesis
      using True Cons.prems by (simp add: call_done_def)
  next
    case False
    then have "c \<notin> insert (callId fc) seen" using Cons.prems by auto
    moreover have "call_view fc = (callId fc, fc_name fc, fc_arguments fc, fc_done fc)"
      by (simp add: call_view_def)
    ultimately show ?thesis
      using Cons.IH [of "insert (callId fc) seen"] False Cons.prems
      by (simp add: call_done_def)
  qed
qed

lemma evolve_done:
  "c \<notin> seen \<Longrightarrow>
   evolve seen
     (map call_view (update_first (\<lambda>f. callId f = c)
        (\<lambda>f. f\<lparr>fc_arguments := args, fc_done := True\<rparr>) fcs)) acts
   = evolve seen (map call_view fcs) (Yield (ToolCallDone c args oi) # acts)"
proof (induction fcs arbitrary: seen)
  case Nil
  show ?case by simp
next
  case (Cons fc fcs)
  show ?case
  proof (cases "callId fc = c")
    case True
    have "evolve (insert c seen) (map call_view fcs) (Yield (ToolCallDone c args oi) # acts)
            = evolve (insert c seen) (map call_view fcs) acts"
      by (rule evolve_other) simp
    moreover have "call_view (fc\<lparr>fc_arguments := args, fc_done := True\<rparr>)
                     = (c, fc_name fc, args, True)"
      "call_view fc = (c, fc_name fc, fc_arguments fc, fc_done fc)"
      using True by (simp_all add: call_view_def)
    ultimately show ?thesis
      using True Cons.prems by (simp add: call_done_def)
  next
    case False
    then have "c \<notin> insert (callId fc) seen" using Cons.prems by auto
    moreover have "call_view fc = (callId fc, fc_name fc, fc_arguments fc, fc_done fc)"
      by (simp add: call_view_def)
    ultimately show ?thesis
      using Cons.IH [of "insert (callId fc) seen"] False Cons.prems
      by (simp add: call_done_def)
  qed
qed

lemma find_None_update_first: "find P xs = None \<Longrightarrow> update_first P f xs = xs"
  by (induction xs) (auto split: if_splits)

lemma map_callId_update_first:
  "(\<And>x. callId (f x) = callId x) \<Longrightarrow> map callId (update_first P f xs) = map callId xs"
  by (induction xs) auto

lemma map_fc_id_update_first:
  "(\<And>x. fc_id (f x) = fc_id x) \<Longrightarrow> map fc_id (update_first P f xs) = map fc_id xs"
  by (induction xs) auto

lemma functionCalls_step:
  "functionCalls (on_action ctx st a) =
     (case a of
        Yield (ToolCallStart c n oi) \<Rightarrow>
          functionCalls st @
            [\<lparr> fc_id = ''fc_'' @ randomHex (ctx_env ctx) (idsDrawn st), callId = c, fc_name = n,
               fc_arguments = [], outputIndex = nextOutputIndex st, fc_done = False \<rparr>]
      | Yield (ToolCallDelta c dl) \<Rightarrow>
          update_first (\<lambda>f. callId f = c) (\<lambda>f. f\<lparr>fc_arguments := fc_arguments f @ dl\<rparr>)
            (functionCalls st)
      | Yield (ToolCallDone c args oi) \<Rightarrow>
          update_first (\<lambda>f. callId f = c) (\<lambda>f. f\<lparr>fc_arguments := args, fc_done := True\<rparr>)
            (functionCalls st)
      | _ \<Rightarrow> functionCalls st)"
proof (cases a)
  case (Yield ev)
  then show ?thesis
    by (cases ev) (simp_all add: step_defs find_None_update_first split: option.splits)
next
  case TimerFires
  then show ?thesis by (simp add: step_defs)
qed

lemma calls_run:
  "map call_view (functionCalls (run_stream ctx acts st))
     = evolve {} (map call_view (functionCalls st)) acts
       @ expected_calls (callId ` set (functionCalls st)) acts"
proof (induction acts arbitrary: st)
  case Nil
  have "evolve seen vs [] = vs" for seen vs
    by (induction vs arbitrary: seen) (auto simp: call_done_def)
  then show ?case by (simp add: run_stream_Nil)
next
  case (Cons a acts)
  let ?st = "on_action ctx st a"
  note ih = Cons.IH [of ?st]
  have img: "fst ` call_view ` S = callId ` S" for S
    by (auto simp: call_view_def image_iff)
  show ?case
  proof (cases a)
    case TimerFires
    then have "functionCalls ?st = functionCalls st"
      using functionCalls_step [of ctx st a] by simp
    with ih TimerFires show ?thesis
      by (simp add: run_stream_Cons evolve_other del: on_action.simps)
  next
    case (Yield ev)
    show ?thesis
    proof (cases ev)
      case (ToolCallStart c n oi)
      have f: "functionCalls ?st = functionCalls st @
            [\<lparr> fc_id = ''fc_'' @ randomHex (ctx_env ctx) (idsDrawn st), callId = c, fc_name = n,
               fc_arguments = [], outputIndex = nextOutputIndex st, fc_done = False \<rparr>]"
        using functionCalls_step [of ctx st a] Yield ToolCallStart by simp
      have e: "evolve {} (map call_view (functionCalls st)) (a # acts)
                 = evolve {} (map call_view (functionCalls st)) acts"
        by (rule evolve_other) (simp add: Yield ToolCallStart)
      have hv: "call_view \<lparr> fc_id = i, callId = c, fc_name = n, fc_arguments = [],
                            outputIndex = nextOutputIndex st, fc_done = False \<rparr>
             = (c, n, [], False)" for i
        by (simp add: call_view_def)
      show ?thesis
        unfolding run_stream_Cons ih f e
        by (simp add: evolve_append img hv Yield ToolCallStart del: on_action.simps)
    next
      case (ToolCallDelta c dl)
      have f: "functionCalls ?st = update_first (\<lambda>f. callId f = c)
            (\<lambda>f. f\<lparr>fc_arguments := fc_arguments f @ dl\<rparr>) (functionCalls st)"
        using functionCalls_step [of ctx st a] Yield ToolCallDelta by simp
      have "map callId (functionCalls ?st) = map callId (functionCalls st)"
        unfolding f by (rule map_callId_update_first) simp
      then have s: "callId ` set (functionCalls ?st) = callId ` set (functionCalls st)"
        by (metis list.set_map)
      show ?thesis
        unfolding run_stream_Cons ih s
        unfolding f
        unfolding Yield ToolCallDelta
        by (simp add: evolve_delta del: on_action.simps)
    next
      case (ToolCallDone c args oi)
      have f: "functionCalls ?st = update_first (\<lambda>f. callId f = c)
            (\<lambda>f. f\<lparr>fc_arguments := args, fc_done := True\<rparr>) (functionCalls st)"
        using functionCalls_step [of ctx st a] Yield ToolCallDone by simp
      have "map callId (functionCalls ?st) = map callId (functionCalls st)"
        unfolding f by (rule map_callId_update_first) simp
      then have s: "callId ` set (functionCalls ?st) = callId ` set (functionCalls st)"
        by (metis list.set_map)
      show ?thesis
        unfolding run_stream_Cons ih s
        unfolding f
        unfolding Yield ToolCallDone
        by (simp add: evolve_done del: on_action.simps)
    next
      case (TextDelta x)
      then have "functionCalls ?st = functionCalls st"
        using functionCalls_step [of ctx st a] Yield by simp
      with ih Yield TextDelta show ?thesis
        by (simp add: run_stream_Cons evolve_other del: on_action.simps on_event.simps)
    next
      case (MessageDone r u)
      then have "functionCalls ?st = functionCalls st"
        using functionCalls_step [of ctx st a] Yield by simp
      with ih Yield MessageDone show ?thesis
        by (simp add: run_stream_Cons evolve_other del: on_action.simps on_event.simps)
    next
      case (ThinkingDelta x)
      then have "functionCalls ?st = functionCalls st"
        using functionCalls_step [of ctx st a] Yield by simp
      with ih Yield ThinkingDelta show ?thesis
        by (simp add: run_stream_Cons evolve_other del: on_action.simps on_event.simps)
    next
      case (ThinkingDone x)
      then have "functionCalls ?st = functionCalls st"
        using functionCalls_step [of ctx st a] Yield by simp
      with ih Yield ThinkingDone show ?thesis
        by (simp add: run_stream_Cons evolve_other del: on_action.simps on_event.simps)
    qed
  qed
qed

lemma reachable_calls:
  "map call_view (functionCalls (run_stream ctx acts (stream_start ctx d))) = expected_calls {} acts"
  using calls_run [of ctx acts "stream_start ctx d"]
  by (simp add: stream_start_def emit_def)


lemma function_call_items_from_views:
  "map function_call_item fcs = call_items (map fc_id fcs) (map call_view fcs)"
  by (induction fcs) (simp_all add: call_items_def function_call_item_def call_view_def)

lemma announced_call_ids_append:
  "announced_call_ids (xs @ ys) = announced_call_ids xs @ announced_call_ids ys"
  by (simp add: announced_call_ids_def)

lemma announced_call_ids_simps:
  "announced_call_ids [] = []"
  "announced_call_ids (ev # evs) = announced_call_id ev @ announced_call_ids evs"
  by (simp_all add: announced_call_ids_def)

lemma announced_step:
  "announced_call_ids (wire st) = map fc_id (functionCalls st) \<Longrightarrow>
   announced_call_ids (wire (on_action ctx st a)) = map fc_id (functionCalls (on_action ctx st a))"
proof (cases a)
  case (Yield ev)
  assume "announced_call_ids (wire st) = map fc_id (functionCalls st)"
  with Yield show ?thesis
    by (cases ev)
       (simp_all add: step_defs announced_call_ids_append announced_call_ids_simps
          map_fc_id_update_first split: option.splits)
next
  case TimerFires
  assume "announced_call_ids (wire st) = map fc_id (functionCalls st)"
  with TimerFires show ?thesis by (simp add: step_defs)
qed

lemma reachable_announced:
  "announced_call_ids (wire (run_stream ctx acts (stream_start ctx d)))
     = map fc_id (functionCalls (run_stream ctx acts (stream_start ctx d)))"
proof (induction acts rule: rev_induct)
  case Nil
  show ?case
    by (simp add: run_stream_Nil stream_start_def emit_def announced_call_ids_simps)
next
  case (snoc a acts)
  then show ?case unfolding run_stream_snoc by (rule announced_step)
qed

lemma accumulatedThinking_step:
  "accumulatedThinking (on_action ctx st a) = thinking_after (accumulatedThinking st) [a]"
proof (cases a)
  case (Yield ev)
  then show ?thesis by (cases ev) (simp_all add: step_defs split: option.splits)
next
  case TimerFires
  then show ?thesis by (simp add: step_defs)
qed

lemma thinking_after_Cons: "thinking_after t (a # acts) = thinking_after (thinking_after t [a]) acts"
  by (cases "(t, [a])" rule: thinking_after.cases) simp_all

lemma thinking_run:
  "accumulatedThinking (run_stream ctx acts st) = thinking_after (accumulatedThinking st) acts"
proof (induction acts arbitrary: st)
  case Nil
  show ?case by (simp add: run_stream_Nil)
next
  case (Cons a acts)
  show ?case
    unfolding run_stream_Cons Cons.IH accumulatedThinking_step
    by (rule thinking_after_Cons [symmetric])
qed

lemma reachable_thinking:
  "accumulatedThinking (run_stream ctx acts (stream_start ctx d)) = thinking_after [] acts"
  using thinking_run [of ctx acts "stream_start ctx d"] by (simp add: stream_start_def emit_def)

lemma reachable_call_items:
  "map function_call_item (functionCalls (run_stream ctx acts (stream_start ctx d)))
     = call_items (announced_call_ids (wire (run_stream ctx acts (stream_start ctx d))))
         (expected_calls {} acts)
   \<and> length (announced_call_ids (wire (run_stream ctx acts (stream_start ctx d))))
       = length (expected_calls {} acts)"
proof -
  let ?st = "run_stream ctx acts (stream_start ctx d)"
  have "length (map fc_id (functionCalls ?st)) = length (map call_view (functionCalls ?st))"
    by simp
  then show ?thesis
    unfolding function_call_items_from_views reachable_announced reachable_calls by simp
qed

text \<open>
  C3. When the provider stream throws an abort error and \<open>store\<close> is true: the stream
  writes \<open>[DONE]\<close> and nothing else after what it had written; the debounce timer is
  no longer armed (a later tick does nothing); the row of the response has status
  \<open>incomplete\<close>, \<open>incomplete_details = {reason: "interrupted"}\<close> and, as output items,
  what \<open>collectOutputItems\<close> gives in the state the stream was in. Read off the
  history, these are: the reasoning item if the thinking received is not empty, the
  message with the text received so far if a \<open>text_delta\<close> had arrived, and one
  function call for each \<open>tool_call_start\<close>, in the order of the starts, with the id
  announced on the wire, its \<open>call_id\<close> and name, the arguments received for it, and
  status \<open>completed\<close> if its \<open>tool_call_done\<close> had arrived, \<open>incomplete\<close> if not.
\<close>

theorem abort_persists_incomplete_then_done:
  "isAbort err \<Longrightarrow> store req \<Longrightarrow> ctx = mk_ctx e req inputItems created \<Longrightarrow>
   st = run_stream ctx acts (stream_start ctx d) \<Longrightarrow>
   fin = streamResponse e req inputItems created acts (Threw err) d \<Longrightarrow>
     wire fin = wire st @ [DoneSentinel]
   \<and> \<not> partialUpdateTimer fin
   \<and> on_action ctx fin TimerFires = fin
   \<and> (\<exists>row. db fin (responseId ctx) = Some row
         \<and> row_status row = Incomplete
         \<and> incompleteDetailsJson row = Some (IncompleteReason ''interrupted'')
         \<and> outputItemsJson row = Some (fst (collectOutputItems ctx st)))
   \<and> fst (collectOutputItems ctx st)
       = (if thinking_after [] acts \<noteq> []
          then [ReasoningItem
                  (''rs_'' @ randomHex e (idsDrawn st + (if has_text acts then 1 else 0)))
                  (thinking_after [] acts) ItemCompleted]
          else [])
         @ (if has_text acts
            then [MessageItem (messageId ctx) ItemCompleted [OutputText (text_so_far acts) []]]
            else [])
         @ call_items (announced_call_ids (wire st)) (expected_calls {} acts)
   \<and> length (announced_call_ids (wire st)) = length (expected_calls {} acts)"
proof -
  assume a: "isAbort err" and s: "store req" and c: "ctx = mk_ctx e req inputItems created"
    and st: "st = run_stream ctx acts (stream_start ctx d)"
    and fin: "fin = streamResponse e req inputItems created acts (Threw err) d"
  have s': "store (ctx_request ctx)" using s c by (simp add: mk_ctx_def)
  have f: "fin = stream_catch ctx err st"
    using fin c st by (simp add: streamResponse_def stream_ending_def Let_def)
  note k = stream_catch_abort [OF a s', of st]
  have w: "wire fin = wire st @ [DoneSentinel]" using k f by simp
  have t: "\<not> partialUpdateTimer fin" using k f by simp
  then have t': "on_action ctx fin TimerFires = fin" by simp
  have r: "\<exists>row. db fin (responseId ctx) = Some row
         \<and> row_status row = Incomplete
         \<and> incompleteDetailsJson row = Some (IncompleteReason ''interrupted'')
         \<and> outputItemsJson row = Some (fst (collectOutputItems ctx st))"
    using persistResponse_row [of "clock (ctx_env ctx)" "responseId ctx" "ctx_request ctx"
        "ctx_inputItems ctx" Incomplete "collected ctx st" "responseUsage st" "ctx_createdAt ctx"
        None "Some (IncompleteReason ''interrupted'')" "db st"] k f
    by (auto simp: collectOutputItems_eq)
  note ci = reachable_call_items [of ctx acts d, folded st]
  have x: "fst (collectOutputItems ctx st)
       = (if thinking_after [] acts \<noteq> []
          then [ReasoningItem
                  (''rs_'' @ randomHex e (idsDrawn st + (if has_text acts then 1 else 0)))
                  (thinking_after [] acts) ItemCompleted]
          else [])
         @ (if has_text acts
            then [MessageItem (messageId ctx) ItemCompleted [OutputText (text_so_far acts) []]]
            else [])
         @ call_items (announced_call_ids (wire st)) (expected_calls {} acts)"
    using reachable_text [of ctx acts d] reachable_thinking [of ctx acts d] ci st c
    by (simp add: collectOutputItems_eq collected_def mk_ctx_def)
  from w t t' r x ci show ?thesis by blast
qed

theorem abort_persists_incomplete_then_done_witness:
  "isAbort abort_error \<and> store example_request
   \<and> wire (streamResponse example_env example_request [] 100 abort_after_tool_calls
             (Threw abort_error) Map.empty)
     = [ResponseInProgress 1 ''resp_a'',
        OutputItemAdded 2 0 (MessageItem ''msg_aa'' ItemInProgress []),
        ContentPartAdded 3 ''msg_aa'' 0 0 (OutputText [] []),
        OutputTextDelta 4 ''msg_aa'' 0 0 ''Hello'',
        OutputItemAdded 5 1 (FunctionCallItem ''fc_aaa'' ''call_a'' ItemInProgress ''get_weather'' []),
        OutputItemDone 6 1 (FunctionCallItem ''fc_aaa'' ''call_a'' ItemCompleted ''get_weather'' ''{ }''),
        OutputItemAdded 7 2 (FunctionCallItem ''fc_aaaaa'' ''call_b'' ItemInProgress ''get_time'' []),
        OutputTextDelta 8 ''msg_aa'' 0 0 '' partial'',
        DoneSentinel]
   \<and> map_option (\<lambda>row. (row_status row, incompleteDetailsJson row, outputItemsJson row))
        (db (streamResponse example_env example_request [] 100 abort_after_tool_calls
               (Threw abort_error) Map.empty) ''resp_a'')
     = Some (Incomplete, Some (IncompleteReason ''interrupted''),
             Some [MessageItem ''msg_aa'' ItemCompleted [OutputText ''Hello partial'' []],
                   FunctionCallItem ''fc_aaa'' ''call_a'' ItemCompleted ''get_weather'' ''{ }'',
                   FunctionCallItem ''fc_aaaaa'' ''call_b'' ItemIncomplete ''get_time'' ''{''])"
proof -
  let ?st = "run_stream example_ctx abort_after_tool_calls (stream_start example_ctx Map.empty)"
  let ?fin = "streamResponse example_env example_request [] 100 abort_after_tool_calls
                (Threw abort_error) Map.empty"
  have a: "isAbort abort_error" by (simp add: isAbort_def abort_error_def)
  have s: "store example_request" by (simp add: example_request_def)
  have v: "wire ?st
    = [ResponseInProgress 1 ''resp_a'',
        OutputItemAdded 2 0 (MessageItem ''msg_aa'' ItemInProgress []),
        ContentPartAdded 3 ''msg_aa'' 0 0 (OutputText [] []),
        OutputTextDelta 4 ''msg_aa'' 0 0 ''Hello'',
        OutputItemAdded 5 1 (FunctionCallItem ''fc_aaa'' ''call_a'' ItemInProgress ''get_weather'' []),
        OutputItemDone 6 1 (FunctionCallItem ''fc_aaa'' ''call_a'' ItemCompleted ''get_weather'' ''{ }''),
        OutputItemAdded 7 2 (FunctionCallItem ''fc_aaaaa'' ''call_b'' ItemInProgress ''get_time'' []),
        OutputTextDelta 8 ''msg_aa'' 0 0 '' partial'']"
    by code_simp
  have h: "thinking_after [] abort_after_tool_calls = []" "has_text abort_after_tool_calls"
    "text_so_far abort_after_tool_calls = ''Hello partial''"
    "expected_calls {} abort_after_tool_calls
       = [(''call_a'', ''get_weather'', ''{ }'', True), (''call_b'', ''get_time'', ''{'', False)]"
    "messageId example_ctx = ''msg_aa''" "responseId example_ctx = ''resp_a''"
    by code_simp+
  have i: "announced_call_ids (wire ?st) = [''fc_aaa'', ''fc_aaaaa'']"
    unfolding v by (simp add: announced_call_ids_def)
  note t = abort_persists_incomplete_then_done
      [OF a s example_ctx_def refl refl, where acts = abort_after_tool_calls and d = Map.empty]
  from t have w: "wire ?fin = wire ?st @ [DoneSentinel]" by blast
  from t obtain row where r: "db ?fin (responseId example_ctx) = Some row"
      "row_status row = Incomplete"
      "incompleteDetailsJson row = Some (IncompleteReason ''interrupted'')"
      "outputItemsJson row = Some (fst (collectOutputItems example_ctx ?st))"
    by blast
  from t have "fst (collectOutputItems example_ctx ?st)
      = [MessageItem ''msg_aa'' ItemCompleted [OutputText ''Hello partial'' []],
         FunctionCallItem ''fc_aaa'' ''call_a'' ItemCompleted ''get_weather'' ''{ }'',
         FunctionCallItem ''fc_aaaaa'' ''call_b'' ItemIncomplete ''get_time'' ''{'']"
    by (simp add: h i call_items_def)
  with r h(6) have row: "map_option (\<lambda>row. (row_status row, incompleteDetailsJson row, outputItemsJson row))
        (db ?fin ''resp_a'')
     = Some (Incomplete, Some (IncompleteReason ''interrupted''),
             Some [MessageItem ''msg_aa'' ItemCompleted [OutputText ''Hello partial'' []],
                   FunctionCallItem ''fc_aaa'' ''call_a'' ItemCompleted ''get_weather'' ''{ }'',
                   FunctionCallItem ''fc_aaaaa'' ''call_b'' ItemIncomplete ''get_time'' ''{''])"
    by simp
  from a s w row show ?thesis unfolding v by simp
qed

text \<open>
  C9. In a state reached by a stream in which the text item has been opened,
  \<open>message_done\<close> makes the stream write \<open>output_text.done\<close> with exactly the
  concatenation of the deltas received so far (the empty string when all of them were
  empty), then \<open>content_part.done\<close>, \<open>output_item.done\<close> and \<open>response.completed\<close>.
\<close>

theorem message_done_closes_text_with_accumulated_text:
  "st = run_stream ctx acts (stream_start ctx d) \<Longrightarrow> textItemOpened st \<Longrightarrow>
   \<exists>resp. wire (on_event ctx (MessageDone reason u) st)
     = wire st @
       [OutputTextDone (Suc (sequence st)) (messageId ctx) (messageOutputIndex st) 0 (text_so_far acts),
        ContentPartDone (Suc (Suc (sequence st))) (messageId ctx) (messageOutputIndex st) 0
          (OutputText (text_so_far acts) []),
        OutputItemDone (Suc (Suc (Suc (sequence st)))) (messageOutputIndex st)
          (MessageItem (messageId ctx) ItemCompleted [OutputText (text_so_far acts) []]),
        ResponseCompleted (Suc (Suc (Suc (Suc (sequence st))))) resp]"
  using wire_message_done [of st ctx reason u] reachable_text [of ctx acts d] by simp

theorem message_done_closes_text_with_accumulated_text_witness:
  "\<exists>resp. wire (on_event example_ctx (MessageDone EndTurn example_usage)
                  (run_stream example_ctx [Yield (TextDelta [])] (stream_start example_ctx Map.empty)))
     = [ResponseInProgress 1 ''resp_a'',
        OutputItemAdded 2 0 (MessageItem ''msg_aa'' ItemInProgress []),
        ContentPartAdded 3 ''msg_aa'' 0 0 (OutputText [] []),
        OutputTextDelta 4 ''msg_aa'' 0 0 [],
        OutputTextDone 5 ''msg_aa'' 0 0 [],
        ContentPartDone 6 ''msg_aa'' 0 0 (OutputText [] []),
        OutputItemDone 7 0 (MessageItem ''msg_aa'' ItemCompleted [OutputText [] []]),
        ResponseCompleted 8 resp]"
proof -
  let ?st = "run_stream example_ctx [Yield (TextDelta [])] (stream_start example_ctx Map.empty)"
  have v: "wire ?st = [ResponseInProgress 1 ''resp_a'',
        OutputItemAdded 2 0 (MessageItem ''msg_aa'' ItemInProgress []),
        ContentPartAdded 3 ''msg_aa'' 0 0 (OutputText [] []),
        OutputTextDelta 4 ''msg_aa'' 0 0 []]"
    "sequence ?st = 4" "messageOutputIndex ?st = 0" "messageId example_ctx = ''msg_aa''"
    "text_so_far [Yield (TextDelta [])] = []"
    by code_simp+
  have o: "textItemOpened ?st" by code_simp
  show ?thesis
    using message_done_closes_text_with_accumulated_text
      [OF refl o, where reason = EndTurn and u = example_usage]
    unfolding v by (simp del: on_event.simps)
qed

lemma tools_before_text_le: "tools_before_text acts \<le> tool_starts acts"
proof -
  have "acts = takeWhile (\<lambda>a. \<not> is_text_delta a) acts @ dropWhile (\<lambda>a. \<not> is_text_delta a) acts"
    by simp
  then have "tool_starts acts
      = tools_before_text acts
        + length (filter is_tool_call_start (dropWhile (\<lambda>a. \<not> is_text_delta a) acts))"
    unfolding tools_before_text_def tool_starts_def
    by (metis filter_append length_append)
  then show ?thesis by simp
qed

lemma message_added_step:
  "textItemOpened st \<longrightarrow> message_added ctx st \<Longrightarrow>
   textItemOpened (on_action ctx st a) \<longrightarrow> message_added ctx (on_action ctx st a)"
proof (cases "textItemOpened st")
  case True
  assume "textItemOpened st \<longrightarrow> message_added ctx st"
  with True obtain k where
    k: "OutputItemAdded k (messageOutputIndex st) (MessageItem (messageId ctx) ItemInProgress [])
          \<in> set (wire st)"
    by (auto simp: message_added_def)
  obtain sfx where "wire (on_action ctx st a) = wire st @ sfx"
    using extends_wire_on_action [of st ctx a] by (auto simp: extends_wire_def)
  with k True show ?thesis
    by (auto simp: message_added_def messageOutputIndex_step)
next
  case False
  show ?thesis
  proof (cases "is_text_delta a")
    case True
    then obtain dl where a: "a = Yield (TextDelta dl)"
      by (cases a rule: is_text_delta.cases) simp_all
    show ?thesis
      using False wire_text_delta [of ctx dl st] messageOutputIndex_step [of ctx st a]
      unfolding a message_added_def
      by (auto simp del: on_event.simps)
  next
    case n: False
    with False show ?thesis by (simp add: textItemOpened_step)
  qed
qed

lemma reachable_message_added:
  "textItemOpened (run_stream ctx acts (stream_start ctx d))
     \<longrightarrow> message_added ctx (run_stream ctx acts (stream_start ctx d))"
proof (induction acts rule: rev_induct)
  case Nil
  show ?case by (simp add: run_stream_Nil stream_start_def emit_def)
next
  case (snoc a acts)
  then show ?case
    unfolding run_stream_snoc by (rule message_added_step)
qed

text \<open>
  C2. In the state \<open>st\<close> a stream has reached after the actions \<open>acts\<close>:
  a \<open>tool_call_start\<close> writes one \<open>output_item.added\<close> whose \<open>output_index\<close> is the
  number of items that have appeared so far; the first \<open>text_delta\<close> writes
  \<open>output_item.added\<close> of the message, then \<open>content_part.added\<close>, then the delta, all
  with that same next index; a later \<open>text_delta\<close> writes only its delta, with the
  message's index; if no \<open>text_delta\<close> has arrived, no event of the message item is on
  the wire, up to and including the end of the stream. In particular, without text the
  first function call has index 0, and with text before any tool call the message has
  index 0 and the first function call index 1.
\<close>

theorem output_index_in_order_of_first_appearance:
  "st = run_stream ctx acts (stream_start ctx d) \<Longrightarrow>
     wire (on_event ctx (ToolCallStart cid nm oi) st)
       = wire st @ [OutputItemAdded (Suc (sequence st)) (items_opened acts)
           (FunctionCallItem (''fc_'' @ randomHex (ctx_env ctx) (idsDrawn st)) cid ItemInProgress nm [])]
   \<and> (\<not> has_text acts \<longrightarrow>
        wire (on_event ctx (TextDelta dl) st)
          = wire st @
            [OutputItemAdded (Suc (sequence st)) (items_opened acts)
               (MessageItem (messageId ctx) ItemInProgress []),
             ContentPartAdded (Suc (Suc (sequence st))) (messageId ctx) (items_opened acts) 0
               (OutputText [] []),
             OutputTextDelta (Suc (Suc (Suc (sequence st)))) (messageId ctx) (items_opened acts) 0 dl])
   \<and> (has_text acts \<longrightarrow>
        wire (on_event ctx (TextDelta dl) st)
          = wire st @
            [OutputTextDelta (Suc (sequence st)) (messageId ctx) (int (tools_before_text acts)) 0 dl])
   \<and> (\<not> has_text acts \<longrightarrow>
        list_all (\<lambda>ev. \<not> message_event ev) (wire (stream_ending ctx ending st)))
   \<and> (\<not> has_text acts \<and> tool_starts acts = 0 \<longrightarrow>
        wire (on_event ctx (ToolCallStart cid nm oi) st)
          = wire st @ [OutputItemAdded (Suc (sequence st)) 0
              (FunctionCallItem (''fc_'' @ randomHex (ctx_env ctx) (idsDrawn st)) cid ItemInProgress nm [])])
   \<and> (has_text acts \<and> tool_starts acts = 0 \<longrightarrow>
        (\<exists>k. OutputItemAdded k 0 (MessageItem (messageId ctx) ItemInProgress []) \<in> set (wire st))
        \<and> wire (on_event ctx (ToolCallStart cid nm oi) st)
            = wire st @ [OutputItemAdded (Suc (sequence st)) 1
                (FunctionCallItem (''fc_'' @ randomHex (ctx_env ctx) (idsDrawn st)) cid ItemInProgress nm [])])"
proof -
  assume st: "st = run_stream ctx acts (stream_start ctx d)"
  note r = reachable_text [of ctx acts d, folded st]
  note m = reachable_message_index [of ctx acts d, folded st]
  note a = reachable_message_added [of ctx acts d, folded st]
  have p1: "wire (on_event ctx (ToolCallStart cid nm oi) st)
       = wire st @ [OutputItemAdded (Suc (sequence st)) (items_opened acts)
           (FunctionCallItem (''fc_'' @ randomHex (ctx_env ctx) (idsDrawn st)) cid ItemInProgress nm [])]"
    using r by (simp add: wire_tool_call_start del: on_event.simps)
  have p2: "\<not> has_text acts \<longrightarrow>
        wire (on_event ctx (TextDelta dl) st)
          = wire st @
            [OutputItemAdded (Suc (sequence st)) (items_opened acts)
               (MessageItem (messageId ctx) ItemInProgress []),
             ContentPartAdded (Suc (Suc (sequence st))) (messageId ctx) (items_opened acts) 0
               (OutputText [] []),
             OutputTextDelta (Suc (Suc (Suc (sequence st)))) (messageId ctx) (items_opened acts) 0 dl]"
    using r by (simp add: wire_text_delta del: on_event.simps)
  have p3: "has_text acts \<longrightarrow>
        wire (on_event ctx (TextDelta dl) st)
          = wire st @
            [OutputTextDelta (Suc (sequence st)) (messageId ctx) (int (tools_before_text acts)) 0 dl]"
    using r m by (simp add: wire_text_delta del: on_event.simps)
  have p4: "\<not> has_text acts \<longrightarrow>
        list_all (\<lambda>ev. \<not> message_event ev) (wire (stream_ending ctx ending st))"
    using r by (simp add: no_message_event_ending)
  have p5: "\<not> has_text acts \<and> tool_starts acts = 0 \<longrightarrow>
        wire (on_event ctx (ToolCallStart cid nm oi) st)
          = wire st @ [OutputItemAdded (Suc (sequence st)) 0
              (FunctionCallItem (''fc_'' @ randomHex (ctx_env ctx) (idsDrawn st)) cid ItemInProgress nm [])]"
    using p1 by (simp add: items_opened_def del: on_event.simps)
  have p6: "has_text acts \<and> tool_starts acts = 0 \<longrightarrow>
        (\<exists>k. OutputItemAdded k 0 (MessageItem (messageId ctx) ItemInProgress []) \<in> set (wire st))
        \<and> wire (on_event ctx (ToolCallStart cid nm oi) st)
            = wire st @ [OutputItemAdded (Suc (sequence st)) 1
                (FunctionCallItem (''fc_'' @ randomHex (ctx_env ctx) (idsDrawn st)) cid ItemInProgress nm [])]"
    using p1 r m a tools_before_text_le [of acts]
    by (auto simp: items_opened_def message_added_def simp del: on_event.simps)
  from p1 p2 p3 p4 p5 p6 show ?thesis by blast
qed

theorem output_index_in_order_of_first_appearance_witness:
  "wire (run_stream example_ctx
           [Yield (TextDelta ''Hi''), Yield (ToolCallStart ''call_abc'' ''get_weather'' 0)]
           (stream_start example_ctx Map.empty))
   = [ResponseInProgress 1 ''resp_a'',
      OutputItemAdded 2 0 (MessageItem ''msg_aa'' ItemInProgress []),
      ContentPartAdded 3 ''msg_aa'' 0 0 (OutputText [] []),
      OutputTextDelta 4 ''msg_aa'' 0 0 ''Hi'',
      OutputItemAdded 5 1 (FunctionCallItem ''fc_aaa'' ''call_abc'' ItemInProgress ''get_weather'' [])]"
proof -
  let ?acts = "[Yield (TextDelta ''Hi'')]"
  let ?st = "run_stream example_ctx ?acts (stream_start example_ctx Map.empty)"
  have h: "has_text ?acts" "tool_starts ?acts = 0"
    by (simp_all add: has_text_def tool_starts_def)
  have v: "wire ?st = [ResponseInProgress 1 ''resp_a'',
      OutputItemAdded 2 0 (MessageItem ''msg_aa'' ItemInProgress []),
      ContentPartAdded 3 ''msg_aa'' 0 0 (OutputText [] []),
      OutputTextDelta 4 ''msg_aa'' 0 0 ''Hi'']"
    "sequence ?st = 4" "idsDrawn ?st = 2" "randomHex (ctx_env example_ctx) 2 = ''aaa''"
    by code_simp+
  note t = output_index_in_order_of_first_appearance
      [OF refl, where ctx = example_ctx and acts = ?acts and d = Map.empty
        and cid = "''call_abc''" and nm = "''get_weather''" and oi = 0]
  from t h have "wire (on_event example_ctx (ToolCallStart ''call_abc'' ''get_weather'' 0) ?st)
       = wire ?st @ [OutputItemAdded (Suc (sequence ?st)) 1
           (FunctionCallItem (''fc_'' @ randomHex (ctx_env example_ctx) (idsDrawn ?st))
              ''call_abc'' ItemInProgress ''get_weather'' [])]"
    by blast
  then have "wire (on_event example_ctx (ToolCallStart ''call_abc'' ''get_weather'' 0) ?st)
       = [ResponseInProgress 1 ''resp_a'',
      OutputItemAdded 2 0 (MessageItem ''msg_aa'' ItemInProgress []),
      ContentPartAdded 3 ''msg_aa'' 0 0 (OutputText [] []),
      OutputTextDelta 4 ''msg_aa'' 0 0 ''Hi'',
      OutputItemAdded 5 1 (FunctionCallItem ''fc_aaa'' ''call_abc'' ItemInProgress ''get_weather'' [])]"
    unfolding v by simp
  moreover have "run_stream example_ctx
           [Yield (TextDelta ''Hi''), Yield (ToolCallStart ''call_abc'' ''get_weather'' 0)]
           (stream_start example_ctx Map.empty)
     = on_event example_ctx (ToolCallStart ''call_abc'' ''get_weather'' 0) ?st"
    using run_stream_snoc [of example_ctx ?acts "Yield (ToolCallStart ''call_abc'' ''get_weather'' 0)"
        "stream_start example_ctx Map.empty"]
    by (simp del: on_event.simps)
  ultimately show ?thesis by (simp only:)
qed

text \<open>
  C4. An item that was interrupted before its end should not be persisted as
  \<open>completed\<close>. The message item does not keep to this: \<open>collectOutputItems\<close> builds it
  with \<open>createTextMessageItem\<close>, whose status is always \<open>completed\<close>. After two deltas
  and an abort, the stored row is \<open>incomplete\<close> and its message item, holding the
  partial text, is \<open>completed\<close>.
\<close>

theorem interrupted_message_persisted_as_completed:
  "map_option (\<lambda>row. (row_status row, outputItemsJson row))
     (db (streamResponse example_env example_request [] 100
            [Yield (TextDelta ''Hello''), Yield (TextDelta '' partial'')]
            (Threw abort_error) Map.empty) ''resp_a'')
   = Some (Incomplete,
           Some [MessageItem ''msg_aa'' ItemCompleted [OutputText ''Hello partial'' []]])"
  by code_simp

section \<open>Request validation\<close>

lemma nullable_optional_min_max:
  "nullable_optional (z_min_max lo hi) v = Some (Some x) \<Longrightarrow> lo \<le> x \<and> x \<le> hi"
  by (auto simp: nullable_optional_def z_min_max_def split: option.splits json.splits if_splits)

lemma nullable_optional_int_positive:
  "nullable_optional z_int_positive v = Some (Some x) \<Longrightarrow> x \<in> \<int> \<and> 0 < x"
  by (auto simp: nullable_optional_def z_int_positive_def z_int_def
      split: option.splits json.splits if_splits) (metis Ints_of_int)+

lemma ResponsesRequestSchema_numbers:
  "ResponsesRequestSchema body = Some req \<Longrightarrow>
   \<exists>kv. body = JObj kv
      \<and> nullable_optional (z_min_max 0 2) (map_of kv ''temperature'') = Some (temperature req)
      \<and> nullable_optional (z_min_max 0 1) (map_of kv ''top_p'') = Some (top_p req)
      \<and> nullable_optional z_int_positive (map_of kv ''max_output_tokens'')
          = Some (max_output_tokens req)"
  by (cases body) (auto simp: ResponsesRequestSchema_def bind_eq_Some_conv)

lemma nullable_optional_min_max_value:
  "nullable_optional (z_min_max lo hi) (Some (JNum x)) = Some r \<Longrightarrow> r = Some x"
  by (auto simp: nullable_optional_def z_min_max_def split: if_splits)

lemma nullable_optional_int_positive_value:
  "nullable_optional z_int_positive (Some (JNum x)) = Some r \<Longrightarrow> r = Some x"
  by (auto simp: nullable_optional_def z_int_positive_def z_int_def split: if_splits)

text \<open>
  C8, as amended. A request that validation accepts carries the \<open>temperature\<close>,
  \<open>top_p\<close> and \<open>max_output_tokens\<close> of the body, and has \<open>0 \<le> temperature \<le> 2\<close>,
  \<open>0 \<le> top_p \<le> 1\<close> and a positive integer \<open>max_output_tokens\<close> (each when given),
  so a body outside these bounds is rejected. Validation does not relate \<open>background\<close>
  to \<open>store\<close>; \<open>runResponse\<close> takes the background path exactly when both are true, and
  a request with \<open>background\<close> and without \<open>store\<close> goes to the streaming or the
  non-streaming handler.
\<close>

theorem accepted_requests:
  "ResponsesRequestSchema body = Some req \<Longrightarrow>
     (\<forall>t. temperature req = Some t \<longrightarrow> 0 \<le> t \<and> t \<le> 2)
   \<and> (\<forall>p. top_p req = Some p \<longrightarrow> 0 \<le> p \<and> p \<le> 1)
   \<and> (\<forall>m. max_output_tokens req = Some m \<longrightarrow> m \<in> \<int> \<and> 0 < m)
   \<and> (\<forall>kv x. body = JObj kv \<and> map_of kv ''temperature'' = Some (JNum x)
          \<longrightarrow> temperature req = Some x)
   \<and> (\<forall>kv x. body = JObj kv \<and> map_of kv ''top_p'' = Some (JNum x) \<longrightarrow> top_p req = Some x)
   \<and> (\<forall>kv x. body = JObj kv \<and> map_of kv ''max_output_tokens'' = Some (JNum x)
          \<longrightarrow> max_output_tokens req = Some x)
   \<and> (runResponse_dispatch req = BackgroundResponse \<longleftrightarrow> background req \<and> store req)
   \<and> (background req \<and> \<not> store req \<longrightarrow>
        runResponse_dispatch req = (if stream req then StreamResponse else NonStreamResponse))"
proof -
  assume "ResponsesRequestSchema body = Some req"
  from ResponsesRequestSchema_numbers [OF this] obtain kv where
    b: "body = JObj kv"
    and t: "nullable_optional (z_min_max 0 2) (map_of kv ''temperature'') = Some (temperature req)"
    and p: "nullable_optional (z_min_max 0 1) (map_of kv ''top_p'') = Some (top_p req)"
    and m: "nullable_optional z_int_positive (map_of kv ''max_output_tokens'')
              = Some (max_output_tokens req)"
    by blast
  have 1: "\<forall>x. temperature req = Some x \<longrightarrow> 0 \<le> x \<and> x \<le> 2"
    using t nullable_optional_min_max [of 0 2 "map_of kv ''temperature''"] by auto
  have 2: "\<forall>x. top_p req = Some x \<longrightarrow> 0 \<le> x \<and> x \<le> 1"
    using p nullable_optional_min_max [of 0 1 "map_of kv ''top_p''"] by auto
  have 3: "\<forall>x. max_output_tokens req = Some x \<longrightarrow> x \<in> \<int> \<and> 0 < x"
    using m nullable_optional_int_positive [of "map_of kv ''max_output_tokens''"] by auto
  have 4: "\<forall>kv' x. body = JObj kv' \<and> map_of kv' ''temperature'' = Some (JNum x)
          \<longrightarrow> temperature req = Some x"
    using b t by (auto dest: nullable_optional_min_max_value)
  have 5: "\<forall>kv' x. body = JObj kv' \<and> map_of kv' ''top_p'' = Some (JNum x)
          \<longrightarrow> top_p req = Some x"
    using b p by (auto dest: nullable_optional_min_max_value)
  have 6: "\<forall>kv' x. body = JObj kv' \<and> map_of kv' ''max_output_tokens'' = Some (JNum x)
          \<longrightarrow> max_output_tokens req = Some x"
    using b m by (auto dest: nullable_optional_int_positive_value)
  have 7: "runResponse_dispatch req = BackgroundResponse \<longleftrightarrow> background req \<and> store req"
    by (simp add: runResponse_dispatch_def)
  have 8: "background req \<and> \<not> store req \<longrightarrow>
        runResponse_dispatch req = (if stream req then StreamResponse else NonStreamResponse)"
    by (simp add: runResponse_dispatch_def)
  from 1 2 3 4 5 6 7 8 show ?thesis by blast
qed

theorem accepted_requests_witness:
  "ResponsesRequestSchema background_with_store
     = Some (example_request\<lparr>stream := False, temperature := Some 0.7, top_p := Some 1,
               max_output_tokens := Some 256, background := True\<rparr>)
   \<and> runResponse_dispatch
        (example_request\<lparr>stream := False, temperature := Some 0.7, top_p := Some 1,
               max_output_tokens := Some 256, background := True\<rparr>) = BackgroundResponse
   \<and> ResponsesRequestSchema temperature_out_of_range = None"
proof -
  have v: "ResponsesRequestSchema background_with_store
     = Some (example_request\<lparr>stream := False, temperature := Some 0.7, top_p := Some 1,
               max_output_tokens := Some 256, background := True\<rparr>)"
    by code_simp
  have "ResponsesRequestSchema temperature_out_of_range \<noteq> Some req" for req
  proof
    assume a: "ResponsesRequestSchema temperature_out_of_range = Some req"
    have "map_of [(''model'', JStr ''gpt-oss-20b-responses''), (''input'', JStr ''Hi''),
                  (''temperature'', JNum 3)] ''temperature'' = Some (JNum 3)"
      by simp
    with accepted_requests [OF a] have "temperature req = Some 3" "3 \<le> (2::real)"
      by (auto simp: temperature_out_of_range_def)
    then show False by simp
  qed
  then have r: "ResponsesRequestSchema temperature_out_of_range = None"
    by (cases "ResponsesRequestSchema temperature_out_of_range") auto
  show ?thesis
    using v r accepted_requests [OF v] by (simp add: example_request_def)
qed

text \<open>
  C8 as first stated, with \<open>background\<close> implying \<open>store\<close> for every accepted request,
  fails: the body
  \<open>{"model": "gpt-oss-20b-responses", "input": "Hi", "background": true, "store": false}\<close>
  is accepted, and is run by the non-streaming handler.
\<close>

theorem background_without_store_is_accepted:
  "ResponsesRequestSchema background_without_store
     = Some (example_request\<lparr>stream := False, store := False, background := True\<rparr>)
   \<and> POST_responses Map.empty background_without_store
     = Handled NonStreamResponse
         (example_request\<lparr>stream := False, store := False, background := True\<rparr>)
         [InputMessage User (StringContent ''Hi'')]"
  by code_simp

end
